theory Spec2Isabelle
  imports Complex_Main
begin

section \<open>Fed batch bioreactor: the notebook's model and scenario sweep\<close>

text \<open>
  The source is the notebook \<^verbatim>\<open>Fed batch bioreactor.ipynb\<close>. Its code cells bind
  module-level names (the parameters, the initial state, the inputs), define the
  derivative function \<^verbatim>\<open>dxdt(t, x)\<close>, and run a loop \<^verbatim>\<open>for F in Fs\<close> that calls
  \<^verbatim>\<open>scipy.integrate.solve_ivp\<close> once per feed rate.

  Numbers. The first part of the theory reads Python's numbers as \<^typ>\<open>real\<close>s.
  This is the exact-arithmetic reading of the source. It is the reading in which
  the sweep loop is studied, since the loop does no arithmetic of its own, and the
  one in which exact solutions of the differential equation are stated. There
  \<^verbatim>\<open>/\<close> raises \<^verbatim>\<open>ZeroDivisionError\<close> when the divisor is zero, as it does on Python
  numbers. The values that \<^verbatim>\<open>dxdt\<close> computes when it runs are doubles. The second
  part models them: their rounding, the \<^verbatim>\<open>OverflowError\<close> of Python's conversion from
  \<^verbatim>\<open>int\<close> to \<^verbatim>\<open>float\<close>, and the numpy \<^verbatim>\<open>float64\<close> operands on which a division by
  zero yields \<^verbatim>\<open>inf\<close> or \<^verbatim>\<open>nan\<close> instead of raising. There \<^verbatim>\<open>dxdt\<close> is transcribed
  over an arbitrary arithmetic; the first reading is its instance at the exact one.
\<close>

subsection \<open>Exceptions and division\<close>

datatype py_error = ZeroDivisionError | ValueError | OverflowError | OtherError string

text \<open>Python's true division \<^verbatim>\<open>a / b\<close> on numbers, read over the reals.\<close>

definition truediv :: "real \<Rightarrow> real \<Rightarrow> py_error + real" where
  "truediv a b = (if b = 0 then Inl ZeroDivisionError else Inr (a / b))"

text \<open>Sequencing of a computation that may raise: the first exception wins.\<close>

definition and_then :: "py_error + 'a \<Rightarrow> ('a \<Rightarrow> py_error + 'b) \<Rightarrow> py_error + 'b" where
  "and_then m k = (case m of Inl e \<Rightarrow> Inl e | Inr v \<Rightarrow> k v)"

subsection \<open>The module namespace\<close>

text \<open>
  The names bound by the notebook's cells before the sweep. \<^verbatim>\<open>dxdt\<close> reads
  \<^verbatim>\<open>mu_max\<close>, \<^verbatim>\<open>K_s\<close>, \<^verbatim>\<open>Y_xs\<close>, \<^verbatim>\<open>Y_px\<close>, \<^verbatim>\<open>F\<close> and \<^verbatim>\<open>S_f\<close> from this namespace
  at the time of each call. The loop rebinds \<^verbatim>\<open>F\<close> and \<^verbatim>\<open>out\<close> and appends to
  \<^verbatim>\<open>results\<close>. The module-level \<^verbatim>\<open>X, S, P, V\<close> only serve to build \<^verbatim>\<open>x0\<close> and are
  shadowed by the locals of \<^verbatim>\<open>dxdt\<close>; they are folded into \<^verbatim>\<open>x0\<close>. The record is
  extensible, so any further name of the namespace lives in its \<open>more\<close> part.
\<close>

record 'out namespace =
  mu_max :: real
  K_s :: real
  Y_xs :: real
  Y_px :: real
  x0 :: "real list"
  F :: real
  S_f :: real
  tspan :: "real list"
  tsmooth :: "real list"
  Fs :: "real list"
  results :: "'out list"
  out :: "'out option"

text \<open>The result object of the single-step solver used in the examples below.\<close>

type_synonym trajectory = "(real \<times> real list) list"

subsection \<open>The derivative function\<close>

text \<open>
  \<^verbatim>\<open>mu = mu_max * S / (K_s + S)\<close>: the product is divided by the sum.
\<close>

definition monod :: "('out, 'a) namespace_scheme \<Rightarrow> real \<Rightarrow> py_error + real" where
  "monod g S = truediv (mu_max g * S) (K_s g + S)"

text \<open>
  \<^verbatim>\<open>
  def dxdt(t, x):
      [X, S, P, V] = x
      mu = mu_max * S / (K_s + S)
      rg = mu * X
      rp = Y_px * rg
      dVdt = F
      dXdt = 1/V*(V * rg - dVdt*X)
      dPdt = 1/V*(V * rp - dVdt*P)
      dSdt = 1/V*(F * S_f - 1 / Y_xs * V * rg - dVdt*S)
      return [dXdt, dSdt, dPdt, dVdt]
  \<close>
  The unpacking raises \<^verbatim>\<open>ValueError\<close> unless \<^verbatim>\<open>x\<close> has exactly four elements.
  Each \<^verbatim>\<open>/\<close> is a \<^const>\<open>truediv\<close>, in the order Python evaluates them: in the
  last assignment \<^verbatim>\<open>1/V\<close> comes before \<^verbatim>\<open>1 / Y_xs\<close>, and
  \<^verbatim>\<open>1 / Y_xs * V * rg\<close> is \<^verbatim>\<open>((1 / Y_xs) * V) * rg\<close>.
\<close>

fun dxdt :: "('out, 'a) namespace_scheme \<Rightarrow> real \<Rightarrow> real list \<Rightarrow> py_error + real list" where
  "dxdt g t [X, S, P, V] =
     and_then (monod g S) (\<lambda>mu.
       let rg = mu * X;
           rp = Y_px g * rg;
           dVdt = F g
       in
       and_then (truediv 1 V) (\<lambda>q1.
         let dXdt = q1 * (V * rg - dVdt * X) in
         and_then (truediv 1 V) (\<lambda>q2.
           let dPdt = q2 * (V * rp - dVdt * P) in
           and_then (truediv 1 V) (\<lambda>q3.
             and_then (truediv 1 (Y_xs g)) (\<lambda>q4.
               let dSdt = q3 * (F g * S_f g - q4 * V * rg - dVdt * S) in
               Inr [dXdt, dSdt, dPdt, dVdt])))))"
| "dxdt g t x = Inl ValueError"

subsection \<open>The scenario sweep\<close>

text \<open>
  \<^verbatim>\<open>scipy.integrate.solve_ivp\<close> is an external library function. It is a parameter
  of the model: a function of the arguments the notebook passes (the derivative
  function, \<^verbatim>\<open>tspan\<close>, \<^verbatim>\<open>x0\<close>, \<^verbatim>\<open>t_eval\<close>) that either returns a result object or
  raises. Nothing else is assumed about it.
\<close>

type_synonym 'out solver =
  "(real \<Rightarrow> real list \<Rightarrow> py_error + real list) \<Rightarrow> real list \<Rightarrow> real list \<Rightarrow> real list
     \<Rightarrow> py_error + 'out"

text \<open>
  \<^verbatim>\<open>
  for F in Fs:
      out = scipy.integrate.solve_ivp(dxdt, tspan, x0, t_eval=tsmooth)
      results.append(out)
  \<close>
  The loop variable is the module-level \<^verbatim>\<open>F\<close>. The function returns the exception
  that ended the cell, if any, and the namespace the cell leaves behind: an exception
  raised by the solver is not caught, so it ends the loop at that scenario.
\<close>

fun sweep_loop ::
  "'out solver \<Rightarrow> real list \<Rightarrow> ('out, 'a) namespace_scheme
     \<Rightarrow> py_error option \<times> ('out, 'a) namespace_scheme" where
  "sweep_loop solve_ivp [] g = (None, g)"
| "sweep_loop solve_ivp (Fv # rest) g =
     (let g1 = g\<lparr>F := Fv\<rparr> in
      case solve_ivp (dxdt g1) (tspan g1) (x0 g1) (tsmooth g1) of
        Inl e \<Rightarrow> (Some e, g1)
      | Inr r \<Rightarrow> sweep_loop solve_ivp rest (g1\<lparr>out := Some r, results := results g1 @ [r]\<rparr>))"

definition sweep ::
  "'out solver \<Rightarrow> ('out, 'a) namespace_scheme \<Rightarrow> py_error option \<times> ('out, 'a) namespace_scheme" where
  "sweep solve_ivp g = sweep_loop solve_ivp (Fs g) g"

subsection \<open>The notebook's configuration\<close>

text \<open>\<^verbatim>\<open>numpy.linspace(0, 30)\<close>: fifty evenly spaced points, both ends included.\<close>

definition linspace :: "real \<Rightarrow> real \<Rightarrow> real list" where
  "linspace start stop = map (\<lambda>k. start + real k * ((stop - start) / 49)) [0..<50]"

text \<open>The namespace after the cells that precede the loop (\<^verbatim>\<open>out\<close> is not bound yet).\<close>

definition notebook :: "'out namespace" where
  "notebook =
     \<lparr>mu_max = 0.2, K_s = 1.0, Y_xs = 0.5, Y_px = 0.2,
      x0 = [0.05, 10, 0, 1],
      F = 0.05, S_f = 10,
      tspan = [0, 30], tsmooth = linspace 0 30,
      Fs = [0.05, 0.02], results = [], out = None\<rparr>"


text \<open>
  The solver call of one loop iteration, for the scenario \<open>Fv\<close>: the derivative
  function sees the namespace in which \<^verbatim>\<open>F\<close> is bound to \<open>Fv\<close>.
\<close>

definition solver_call :: "'out solver \<Rightarrow> ('out, 'a) namespace_scheme \<Rightarrow> real \<Rightarrow> py_error + 'out" where
  "solver_call solve_ivp g Fv = solve_ivp (dxdt (g\<lparr>F := Fv\<rparr>)) (tspan g) (x0 g) (tsmooth g)"

subsection \<open>Two concrete solvers for the examples\<close>

text \<open>
  The theorems about the sweep hold for every solver. Their examples need a concrete
  one. \<open>euler1\<close> is the explicit Euler method with a single step across \<^verbatim>\<open>t_span\<close>:
  it evaluates the derivative function once, at the initial point, lets its exception
  through, and returns the two samples. \<open>raising_solver e\<close> raises \<open>e\<close> on every call.
  Neither stands for scipy's integrator.
\<close>

definition euler1 :: "trajectory solver" where
  "euler1 f t_span y0 t_eval =
     (case t_span of
        [t0, tf] \<Rightarrow>
          and_then (f t0 y0) (\<lambda>d. Inr [(t0, y0), (tf, map2 (\<lambda>y dy. y + (tf - t0) * dy) y0 d)])
      | _ \<Rightarrow> Inl ValueError)"

definition raising_solver :: "py_error \<Rightarrow> 'out solver" where
  "raising_solver e f t_span y0 t_eval = Inl e"

subsection \<open>Exact solutions of the model\<close>





section \<open>The arithmetic the code runs in\<close>

text \<open>
  The definitions above read the source over the real numbers. The code itself
  computes with Python \<^verbatim>\<open>int\<close>s (unbounded), Python \<^verbatim>\<open>float\<close>s and, inside
  \<^verbatim>\<open>solve_ivp\<close>, numpy \<^verbatim>\<open>float64\<close> values (both IEEE 754 binary64 with rounding to
  nearest, ties to even). This section models that arithmetic, and transcribes
  \<^verbatim>\<open>dxdt\<close> once more over an arbitrary arithmetic, so that the same transcription
  can be read exactly and in doubles.
\<close>

subsection \<open>Doubles\<close>

text \<open>
  A double is a non-zero finite value (\<open>Finite x\<close>, with \<open>x\<close> the real number it
  denotes), a signed zero, a signed infinity or a NaN; the flag of \<open>Zero\<close> and
  \<open>Infty\<close> is set for the negative one. The zeros are \<open>Zero\<close>s: \<open>Finite 0\<close> stands
  for no double, and neither rounding nor the operations below produce it from
  doubles.
\<close>

datatype dbl = Finite real | Zero bool | Infty bool | NaN

fun is_double :: "dbl \<Rightarrow> bool" where
  "is_double (Finite x) = (x \<noteq> 0)"
| "is_double d = True"

text \<open>The number of binary digits of a natural number.\<close>

fun bit_length :: "nat \<Rightarrow> nat" where
  "bit_length n = (if n = 0 then 0 else Suc (bit_length (n div 2)))"

declare bit_length.simps [simp del]

text \<open>The binary exponent of a positive real: \<open>2 powi (ilog2 a) \<le> a < 2 powi (ilog2 a + 1)\<close>.\<close>

definition ilog2 :: "real \<Rightarrow> int" where
  "ilog2 a = (if 1 \<le> a then int (bit_length (nat \<lfloor>a\<rfloor>)) - 1
              else - int (bit_length (nat (\<lceil>1 / a\<rceil> - 1))))"

text \<open>Rounding to the nearest integer, a tie going to the even one.\<close>

definition rne :: "real \<Rightarrow> int" where
  "rne y = (let f = \<lfloor>y\<rfloor>; d = y - of_int f
            in if d < 1 / 2 then f else if 1 / 2 < d then f + 1 else if even f then f else f + 1)"

text \<open>
  The double nearest to a real number. The significand has 53 bits, so the spacing
  of the doubles around \<open>x\<close> is \<open>2 powi (e - 52)\<close> for the exponent \<open>e\<close> of \<open>x\<close>, and
  never less than \<open>2 powi (- 1074)\<close> (the subnormal range). A rounded magnitude of
  \<open>2 powi 1024\<close> or more, reached when \<open>e \<ge> 1024\<close> or when \<open>e = 1023\<close> and the
  significand rounds up to \<open>2 ^ 53\<close>, is an infinity. The flag \<open>zs\<close> is the sign of
  the zero returned for \<open>x = 0\<close>.
\<close>

definition round_double :: "bool \<Rightarrow> real \<Rightarrow> dbl" where
  "round_double zs x =
     (if x = 0 then Zero zs
      else let a = \<bar>x\<bar>;
               e = max (ilog2 a) (- 1022);
               q = 2 powi (e - 52);
               n = rne (a / q)
           in if 1024 \<le> e \<or> (e = 1023 \<and> n = 2 ^ 53) then Infty (x < 0)
              else if n = 0 then Zero (x < 0)
              else Finite (if x < 0 then - (of_int n * q) else of_int n * q))"

fun d_sign :: "dbl \<Rightarrow> bool" where
  "d_sign (Finite x) = (x < 0)"
| "d_sign (Zero s) = s"
| "d_sign (Infty s) = s"
| "d_sign NaN = False"

fun d_neg :: "dbl \<Rightarrow> dbl" where
  "d_neg (Finite x) = Finite (- x)"
| "d_neg (Zero s) = Zero (\<not> s)"
| "d_neg (Infty s) = Infty (\<not> s)"
| "d_neg NaN = NaN"

fun is_zero :: "dbl \<Rightarrow> bool" where
  "is_zero (Zero s) = True"
| "is_zero d = False"

text \<open>
  The IEEE operations: the exact result, rounded. A NaN operand gives NaN, and so
  do \<open>inf * 0\<close>, \<open>inf - inf\<close>, \<open>inf / inf\<close> and \<open>0 / 0\<close>; a non-zero value divided by
  zero is an infinity. An exact sum of zero is \<open>+0\<close>, except \<open>(-0) + (-0)\<close>.
\<close>

fun d_mul :: "dbl \<Rightarrow> dbl \<Rightarrow> dbl" where
  "d_mul NaN b = NaN"
| "d_mul a NaN = NaN"
| "d_mul (Infty s) (Zero t) = NaN"
| "d_mul (Zero s) (Infty t) = NaN"
| "d_mul (Infty s) b = Infty (s \<noteq> d_sign b)"
| "d_mul a (Infty t) = Infty (d_sign a \<noteq> t)"
| "d_mul (Zero s) b = Zero (s \<noteq> d_sign b)"
| "d_mul a (Zero t) = Zero (d_sign a \<noteq> t)"
| "d_mul (Finite x) (Finite y) = round_double ((x < 0) \<noteq> (y < 0)) (x * y)"

fun d_add :: "dbl \<Rightarrow> dbl \<Rightarrow> dbl" where
  "d_add NaN b = NaN"
| "d_add a NaN = NaN"
| "d_add (Infty s) (Infty t) = (if s = t then Infty s else NaN)"
| "d_add (Infty s) b = Infty s"
| "d_add a (Infty t) = Infty t"
| "d_add (Zero s) (Zero t) = Zero (s \<and> t)"
| "d_add (Zero s) (Finite y) = Finite y"
| "d_add (Finite x) (Zero t) = Finite x"
| "d_add (Finite x) (Finite y) = round_double False (x + y)"

definition d_sub :: "dbl \<Rightarrow> dbl \<Rightarrow> dbl" where
  "d_sub a b = d_add a (d_neg b)"

fun d_div :: "dbl \<Rightarrow> dbl \<Rightarrow> dbl" where
  "d_div NaN b = NaN"
| "d_div a NaN = NaN"
| "d_div (Infty s) (Infty t) = NaN"
| "d_div (Infty s) b = Infty (s \<noteq> d_sign b)"
| "d_div a (Infty t) = Zero (d_sign a \<noteq> t)"
| "d_div (Zero s) (Zero t) = NaN"
| "d_div (Zero s) (Finite y) = Zero (s \<noteq> (y < 0))"
| "d_div (Finite x) (Zero t) = Infty ((x < 0) \<noteq> t)"
| "d_div (Finite x) (Finite y) = round_double ((x < 0) \<noteq> (y < 0)) (x / y)"

subsection \<open>Python and numpy numbers\<close>

text \<open>
  The values \<^verbatim>\<open>dxdt\<close> meets: Python \<^verbatim>\<open>int\<close>s, Python \<^verbatim>\<open>float\<close>s, and numpy
  \<^verbatim>\<open>float64\<close> scalars, which are what unpacking the state array that \<^verbatim>\<open>solve_ivp\<close>
  passes yields.
\<close>

datatype pynum = PyInt int | PyFloat dbl | NpFloat dbl

text \<open>
  A float literal denotes the double nearest to its decimal value; \<open>np_float64\<close>
  is the same double as an array element.
\<close>

definition lit :: "real \<Rightarrow> pynum" where
  "lit r = PyFloat (round_double False r)"

definition np_float64 :: "real \<Rightarrow> pynum" where
  "np_float64 r = NpFloat (round_double False r)"

text \<open>
  An \<^verbatim>\<open>int\<close> operand of a float operation is converted to the nearest double;
  Python raises \<^verbatim>\<open>OverflowError\<close> when that is not finite.
\<close>

definition int_to_double :: "int \<Rightarrow> py_error + dbl" where
  "int_to_double n =
     (case round_double False (of_int n) of Infty s \<Rightarrow> Inl OverflowError | d \<Rightarrow> Inr d)"

fun as_double :: "pynum \<Rightarrow> py_error + dbl" where
  "as_double (PyInt n) = int_to_double n"
| "as_double (PyFloat d) = Inr d"
| "as_double (NpFloat d) = Inr d"

fun is_np :: "pynum \<Rightarrow> bool" where
  "is_np (NpFloat d) = True"
| "is_np v = False"

definition float_result :: "pynum \<Rightarrow> pynum \<Rightarrow> dbl \<Rightarrow> pynum" where
  "float_result a b d = (if is_np a \<or> is_np b then NpFloat d else PyFloat d)"

text \<open>
  \<^verbatim>\<open>*\<close>, \<^verbatim>\<open>+\<close> and \<^verbatim>\<open>-\<close>: exact on two \<^verbatim>\<open>int\<close>s; otherwise both operands are taken
  as doubles, left one first, and the IEEE operation is applied. The result is a
  \<^verbatim>\<open>float64\<close> as soon as one operand is.
\<close>

definition py_binop ::
  "(int \<Rightarrow> int \<Rightarrow> int) \<Rightarrow> (dbl \<Rightarrow> dbl \<Rightarrow> dbl) \<Rightarrow> pynum \<Rightarrow> pynum \<Rightarrow> py_error + pynum" where
  "py_binop iop fop a b =
     (case (a, b) of
        (PyInt m, PyInt n) \<Rightarrow> Inr (PyInt (iop m n))
      | _ \<Rightarrow> and_then (as_double a) (\<lambda>x. and_then (as_double b) (\<lambda>y.
               Inr (float_result a b (fop x y)))))"

definition py_mul :: "pynum \<Rightarrow> pynum \<Rightarrow> py_error + pynum" where
  "py_mul = py_binop (*) d_mul"

definition py_add :: "pynum \<Rightarrow> pynum \<Rightarrow> py_error + pynum" where
  "py_add = py_binop (+) d_add"

definition py_sub :: "pynum \<Rightarrow> pynum \<Rightarrow> py_error + pynum" where
  "py_sub = py_binop (-) d_sub"

fun py_neg :: "pynum \<Rightarrow> py_error + pynum" where
  "py_neg (PyInt n) = Inr (PyInt (- n))"
| "py_neg (PyFloat d) = Inr (PyFloat (d_neg d))"
| "py_neg (NpFloat d) = Inr (NpFloat (d_neg d))"

text \<open>
  \<^verbatim>\<open>/\<close> on two \<^verbatim>\<open>int\<close>s is the correctly rounded quotient, with
  \<^verbatim>\<open>ZeroDivisionError\<close> for a zero divisor and \<^verbatim>\<open>OverflowError\<close> for a quotient
  beyond the doubles. On Python numbers otherwise a zero divisor raises
  \<^verbatim>\<open>ZeroDivisionError\<close>. With a \<^verbatim>\<open>float64\<close> operand nothing is raised for a zero
  divisor: numpy warns and returns the IEEE quotient, an infinity or a NaN.
\<close>

definition int_truediv :: "int \<Rightarrow> int \<Rightarrow> py_error + pynum" where
  "int_truediv m n =
     (if n = 0 then Inl ZeroDivisionError
      else case round_double ((m < 0) \<noteq> (n < 0)) (of_int m / of_int n) of
             Infty s \<Rightarrow> Inl OverflowError
           | d \<Rightarrow> Inr (PyFloat d))"

definition py_truediv :: "pynum \<Rightarrow> pynum \<Rightarrow> py_error + pynum" where
  "py_truediv a b =
     (case (a, b) of
        (PyInt m, PyInt n) \<Rightarrow> int_truediv m n
      | _ \<Rightarrow> and_then (as_double a) (\<lambda>x. and_then (as_double b) (\<lambda>y.
               if is_np a \<or> is_np b then Inr (NpFloat (d_div x y))
               else if is_zero y then Inl ZeroDivisionError
               else Inr (PyFloat (d_div x y)))))"

subsection \<open>The derivative function over an arithmetic\<close>

text \<open>
  An arithmetic gives the four operators \<^verbatim>\<open>dxdt\<close> uses, each of which may raise,
  the value of the literal \<^verbatim>\<open>1\<close>, and negation (used below for the specification
  only; the source has none).
\<close>

record 'v arith =
  a_mul :: "'v \<Rightarrow> 'v \<Rightarrow> py_error + 'v"
  a_add :: "'v \<Rightarrow> 'v \<Rightarrow> py_error + 'v"
  a_sub :: "'v \<Rightarrow> 'v \<Rightarrow> py_error + 'v"
  a_div :: "'v \<Rightarrow> 'v \<Rightarrow> py_error + 'v"
  a_neg :: "'v \<Rightarrow> py_error + 'v"
  a_one :: 'v

definition exact_arith :: "real arith" where
  "exact_arith =
     \<lparr>a_mul = (\<lambda>a b. Inr (a * b)), a_add = (\<lambda>a b. Inr (a + b)), a_sub = (\<lambda>a b. Inr (a - b)),
      a_div = truediv, a_neg = (\<lambda>a. Inr (- a)), a_one = 1\<rparr>"

definition python_arith :: "pynum arith" where
  "python_arith =
     \<lparr>a_mul = py_mul, a_add = py_add, a_sub = py_sub, a_div = py_truediv, a_neg = py_neg,
      a_one = PyInt 1\<rparr>"

text \<open>The six module-level names that \<^verbatim>\<open>dxdt\<close> reads, as values of the arithmetic.\<close>

record 'v model_globals =
  mu_max_val :: 'v
  K_s_val :: 'v
  Y_xs_val :: 'v
  Y_px_val :: 'v
  F_val :: 'v
  S_f_val :: 'v

definition exact_globals :: "('out, 'a) namespace_scheme \<Rightarrow> real model_globals" where
  "exact_globals g =
     \<lparr>mu_max_val = mu_max g, K_s_val = K_s g, Y_xs_val = Y_xs g, Y_px_val = Y_px g,
      F_val = F g, S_f_val = S_f g\<rparr>"

text \<open>
  The notebook's bindings: \<^verbatim>\<open>mu_max = 0.2\<close>, \<^verbatim>\<open>K_s = 1.0\<close>, \<^verbatim>\<open>Y_xs = 0.5\<close>,
  \<^verbatim>\<open>Y_px = 0.2\<close>, \<^verbatim>\<open>F = 0.05\<close> are float literals, \<^verbatim>\<open>S_f = 10\<close> is an \<^verbatim>\<open>int\<close>.
\<close>

definition notebook_py :: "pynum model_globals" where
  "notebook_py =
     \<lparr>mu_max_val = lit 0.2, K_s_val = lit 1.0, Y_xs_val = lit 0.5, Y_px_val = lit 0.2,
      F_val = lit 0.05, S_f_val = PyInt 10\<rparr>"

text \<open>
  \<^verbatim>\<open>mu = mu_max * S / (K_s + S)\<close>: the product, then the sum, then the quotient.
\<close>

definition monod_on :: "'v arith \<Rightarrow> 'v model_globals \<Rightarrow> 'v \<Rightarrow> py_error + 'v" where
  "monod_on A G S =
     and_then (a_mul A (mu_max_val G) S) (\<lambda>m1.
     and_then (a_add A (K_s_val G) S) (\<lambda>m2.
     a_div A m1 m2))"

text \<open>
  The body of \<^verbatim>\<open>dxdt\<close>, one operator application per line, in the order in which
  Python evaluates them: operands left to right, \<^verbatim>\<open>1/V*(...)\<close> as
  \<^verbatim>\<open>(1/V) * (...)\<close> with the quotient first, and \<^verbatim>\<open>1 / Y_xs * V * rg\<close> as
  \<^verbatim>\<open>((1 / Y_xs) * V) * rg\<close>. The time argument is not used.
\<close>

fun dxdt_on :: "'v arith \<Rightarrow> 'v model_globals \<Rightarrow> 'v list \<Rightarrow> py_error + 'v list" where
  "dxdt_on A G [X, S, P, V] =
     and_then (monod_on A G S) (\<lambda>mu.
     and_then (a_mul A mu X) (\<lambda>rg.
     and_then (a_mul A (Y_px_val G) rg) (\<lambda>rp.
     let dVdt = F_val G in
     and_then (a_div A (a_one A) V) (\<lambda>x1.
     and_then (a_mul A V rg) (\<lambda>x2.
     and_then (a_mul A dVdt X) (\<lambda>x3.
     and_then (a_sub A x2 x3) (\<lambda>x4.
     and_then (a_mul A x1 x4) (\<lambda>dXdt.
     and_then (a_div A (a_one A) V) (\<lambda>p1.
     and_then (a_mul A V rp) (\<lambda>p2.
     and_then (a_mul A dVdt P) (\<lambda>p3.
     and_then (a_sub A p2 p3) (\<lambda>p4.
     and_then (a_mul A p1 p4) (\<lambda>dPdt.
     and_then (a_div A (a_one A) V) (\<lambda>s1.
     and_then (a_mul A (F_val G) (S_f_val G)) (\<lambda>s2.
     and_then (a_div A (a_one A) (Y_xs_val G)) (\<lambda>s3.
     and_then (a_mul A s3 V) (\<lambda>s4.
     and_then (a_mul A s4 rg) (\<lambda>s5.
     and_then (a_sub A s2 s5) (\<lambda>s6.
     and_then (a_mul A dVdt S) (\<lambda>s7.
     and_then (a_sub A s6 s7) (\<lambda>s8.
     and_then (a_mul A s1 s8) (\<lambda>dSdt.
     Inr [dXdt, dSdt, dPdt, dVdt]))))))))))))))))))))))"
| "dxdt_on A G x = Inl ValueError"

subsection \<open>The specification's formulas over an arithmetic\<close>




subsection \<open>An integrator in double arithmetic, for the examples\<close>






text \<open>The volume of a sample, and the volumes of the samples of a result.\<close>

fun volume_of :: "'v \<times> 'v list \<Rightarrow> 'v" where
  "volume_of (t, y) = y ! 3"



subsection \<open>Schedules of rebindings and calls\<close>

text \<open>
  Two things happen to the namespace while the notebook runs: the loop header
  \<^verbatim>\<open>for F in Fs\<close> rebinds \<^verbatim>\<open>F\<close>, and the solver calls \<^verbatim>\<open>dxdt(t, x)\<close>. A schedule
  is a list of such actions, performed one after the other on the one namespace;
  it returns the results of its calls, in order, and the namespace it leaves. Two
  scenario runs executed concurrently in one namespace perform some interleaving
  of their actions.
\<close>

datatype action = Rebind_F real | Call_dxdt real "real list"

fun perform ::
  "action \<Rightarrow> ('out, 'a) namespace_scheme
     \<Rightarrow> (py_error + real list) list \<times> ('out, 'a) namespace_scheme" where
  "perform (Rebind_F Fv) g = ([], g\<lparr>F := Fv\<rparr>)"
| "perform (Call_dxdt t x) g = ([dxdt g t x], g)"

fun run_actions ::
  "action list \<Rightarrow> ('out, 'a) namespace_scheme
     \<Rightarrow> (py_error + real list) list \<times> ('out, 'a) namespace_scheme" where
  "run_actions [] g = ([], g)"
| "run_actions (a # rest) g =
     (case perform a g of (rs, g1) \<Rightarrow>
        case run_actions rest g1 of (rs', g2) \<Rightarrow> (rs @ rs', g2))"


subsection \<open>The derivative function on float operands\<close>

text \<open>
  The three concentration rates of \<^verbatim>\<open>dxdt\<close> written with the IEEE operations, in
  the order \<^verbatim>\<open>[dXdt, dSdt, dPdt]\<close>, for doubles bound to the six names and a state
  of four doubles. The theorems below show that \<open>dxdt_on python_arith\<close> computes
  these on float operands.
\<close>

definition double_rates :: "dbl model_globals \<Rightarrow> dbl \<Rightarrow> dbl \<Rightarrow> dbl \<Rightarrow> dbl \<Rightarrow> dbl list" where
  "double_rates D X S P V =
     (let mu = d_div (d_mul (mu_max_val D) S) (d_add (K_s_val D) S);
          rg = d_mul mu X;
          rp = d_mul (Y_px_val D) rg;
          q = d_div (Finite 1) V
      in [d_mul q (d_sub (d_mul V rg) (d_mul (F_val D) X)),
          d_mul q (d_sub (d_sub (d_mul (F_val D) (S_f_val D))
                                (d_mul (d_mul (d_div (Finite 1) (Y_xs_val D)) V) rg))
                         (d_mul (F_val D) S)),
          d_mul q (d_sub (d_mul V rp) (d_mul (F_val D) P))])"


text \<open>
  A namespace in which \<^verbatim>\<open>mu_max\<close>, \<^verbatim>\<open>K_s\<close>, \<^verbatim>\<open>Y_xs\<close>, \<^verbatim>\<open>Y_px\<close> and \<^verbatim>\<open>F\<close> are bound
  to Python floats, as in the notebook, and \<^verbatim>\<open>S_f\<close> to the Python number \<open>sf\<close> (the
  notebook binds it to the \<^verbatim>\<open>int\<close> 10).
\<close>

definition float_globals :: "dbl model_globals \<Rightarrow> pynum \<Rightarrow> pynum model_globals" where
  "float_globals D sf =
     \<lparr>mu_max_val = PyFloat (mu_max_val D), K_s_val = PyFloat (K_s_val D),
      Y_xs_val = PyFloat (Y_xs_val D), Y_px_val = PyFloat (Y_px_val D),
      F_val = PyFloat (F_val D), S_f_val = sf\<rparr>"

definition notebook_dbl :: "dbl model_globals" where
  "notebook_dbl =
     \<lparr>mu_max_val = round_double False 0.2, K_s_val = round_double False 1.0,
      Y_xs_val = round_double False 0.5, Y_px_val = round_double False 0.2,
      F_val = round_double False 0.05, S_f_val = round_double False 10\<rparr>"





section \<open>Basic facts\<close>

lemma and_then_Inr [simp]: "and_then (Inr v) k = k v"
  by (simp add: and_then_def)

lemma and_then_Inl [simp]: "and_then (Inl e) k = Inl e"
  by (simp add: and_then_def)

lemma truediv_zero [simp]: "truediv a 0 = Inl ZeroDivisionError"
  by (simp add: truediv_def)

lemma truediv_nonzero: "b \<noteq> 0 \<Longrightarrow> truediv a b = Inr (a / b)"
  by (simp add: truediv_def)

text \<open>
  When \<^verbatim>\<open>dxdt\<close> raises on a four-element state, and what it returns otherwise. The
  returned list is written exactly as the source computes it.
\<close>

lemma dxdt_raises:
  "K_s g + S = 0 \<or> V = 0 \<or> Y_xs g = 0 \<Longrightarrow> dxdt g t [X, S, P, V] = Inl ZeroDivisionError"
  by (auto simp: monod_def truediv_def Let_def)

lemma dxdt_returns:
  assumes "K_s g + S \<noteq> 0" "V \<noteq> 0" "Y_xs g \<noteq> 0"
  shows "dxdt g t [X, S, P, V] =
    Inr [1 / V * (V * (mu_max g * S / (K_s g + S) * X) - F g * X),
         1 / V * (F g * S_f g - 1 / Y_xs g * V * (mu_max g * S / (K_s g + S) * X) - F g * S),
         1 / V * (V * (Y_px g * (mu_max g * S / (K_s g + S) * X)) - F g * P),
         F g]"
  using assms by (simp add: monod_def truediv_nonzero Let_def)

lemma dxdt_length: "dxdt g t x = Inr d \<Longrightarrow> length x = 4 \<and> length d = 4"
  by (induction g t x rule: dxdt.induct)
    (auto simp: monod_def truediv_def Let_def and_then_def split: if_splits sum.splits)

lemma dxdt_InrE:
  assumes d: "dxdt g t x = Inr d"
  obtains X S P V where "x = [X, S, P, V]" "K_s g + S \<noteq> 0" "V \<noteq> 0" "Y_xs g \<noteq> 0"
    "d = [1 / V * (V * (mu_max g * S / (K_s g + S) * X) - F g * X),
          1 / V * (F g * S_f g - 1 / Y_xs g * V * (mu_max g * S / (K_s g + S) * X) - F g * S),
          1 / V * (V * (Y_px g * (mu_max g * S / (K_s g + S) * X)) - F g * P),
          F g]"
proof -
  from dxdt_length [OF d] have "length x = Suc (Suc (Suc (Suc 0)))"
    by simp
  then obtain X S P V where x: "x = [X, S, P, V]"
    by (auto simp: length_Suc_conv)
  have nz: "K_s g + S \<noteq> 0 \<and> V \<noteq> 0 \<and> Y_xs g \<noteq> 0"
  proof (rule ccontr)
    assume "\<not> ?thesis"
    then have "K_s g + S = 0 \<or> V = 0 \<or> Y_xs g = 0" by blast
    then have "dxdt g t [X, S, P, V] = Inl ZeroDivisionError" by (rule dxdt_raises)
    with d x show False by simp
  qed
  have "dxdt g t [X, S, P, V] = Inr d"
    using d x by simp
  moreover have "dxdt g t [X, S, P, V] =
    Inr [1 / V * (V * (mu_max g * S / (K_s g + S) * X) - F g * X),
         1 / V * (F g * S_f g - 1 / Y_xs g * V * (mu_max g * S / (K_s g + S) * X) - F g * S),
         1 / V * (V * (Y_px g * (mu_max g * S / (K_s g + S) * X)) - F g * P),
         F g]"
    using nz by (intro dxdt_returns) simp_all
  ultimately have "d = [1 / V * (V * (mu_max g * S / (K_s g + S) * X) - F g * X),
          1 / V * (F g * S_f g - 1 / Y_xs g * V * (mu_max g * S / (K_s g + S) * X) - F g * S),
          1 / V * (V * (Y_px g * (mu_max g * S / (K_s g + S) * X)) - F g * P),
          F g]"
    by (simp del: dxdt.simps)
  with x nz show ?thesis
    by (intro that [of X S P V]) simp_all
qed

text \<open>
  \<^verbatim>\<open>dxdt\<close> reads six names of the namespace and ignores its time argument.
\<close>

lemma dxdt_cong:
  assumes "mu_max g = mu_max g'" "K_s g = K_s g'" "Y_xs g = Y_xs g'" "Y_px g = Y_px g'"
    "F g = F g'" "S_f g = S_f g'"
  shows "dxdt g t x = dxdt g' t' x"
  using assms by (cases "(g, t, x)" rule: dxdt.cases) (simp_all add: monod_def)

lemma dxdt_loop_state [simp]:
  "dxdt (g\<lparr>F := Fv, out := ov, results := rv\<rparr>) = dxdt (g\<lparr>F := Fv\<rparr>)"
  by (intro ext dxdt_cong) simp_all

lemma solver_call_loop_state [simp]:
  "solver_call s (g\<lparr>F := a, out := ov, results := rv\<rparr>) = solver_call s g"
proof
  fix Fv
  have "dxdt (g\<lparr>F := a, out := ov, results := rv, F := Fv\<rparr>) = dxdt (g\<lparr>F := Fv\<rparr>)"
    by (intro ext dxdt_cong) simp_all
  then show "solver_call s (g\<lparr>F := a, out := ov, results := rv\<rparr>) Fv = solver_call s g Fv"
    by (simp add: solver_call_def)
qed

section \<open>The sweep loop\<close>

lemma sweep_loop_Cons:
  "sweep_loop s (Fv # rest) g =
     (case solver_call s g Fv of
        Inl e \<Rightarrow> (Some e, g\<lparr>F := Fv\<rparr>)
      | Inr r \<Rightarrow> sweep_loop s rest (g\<lparr>F := Fv, out := Some r, results := results g @ [r]\<rparr>))"
  by (simp add: solver_call_def Let_def split: sum.splits)

lemma sweep_loop_returns:
  "map (solver_call s g) fs = map Inr rs \<Longrightarrow>
     fst (sweep_loop s fs g) = None \<and>
     results (snd (sweep_loop s fs g)) = results g @ rs \<and>
     (fs \<noteq> [] \<longrightarrow> F (snd (sweep_loop s fs g)) = last fs \<and> out (snd (sweep_loop s fs g)) = Some (last rs))"
proof (induction fs arbitrary: g rs)
  case Nil
  then show ?case by simp
next
  case (Cons Fv rest)
  then obtain r rs' where rs: "rs = r # rs'" and r: "solver_call s g Fv = Inr r"
    and rest: "map (solver_call s g) rest = map Inr rs'"
    by (cases rs) auto
  let ?g = "g\<lparr>F := Fv, out := Some r, results := results g @ [r]\<rparr>"
  have "map (solver_call s ?g) rest = map Inr rs'"
    using rest by simp
  from Cons.IH [OF this] have IH: "fst (sweep_loop s rest ?g) = None"
    "results (snd (sweep_loop s rest ?g)) = results g @ r # rs'"
    "rest \<noteq> [] \<longrightarrow> F (snd (sweep_loop s rest ?g)) = last rest \<and> out (snd (sweep_loop s rest ?g)) = Some (last rs')"
    by simp_all
  have len: "length rest = length rs'"
    using rest by (metis length_map)
  show ?case
    using IH len by (cases rest) (auto simp: sweep_loop_Cons r rs simp del: sweep_loop.simps(2))
qed

lemma sweep_loop_frame:
  "mu_max (snd (sweep_loop s fs g)) = mu_max g \<and> K_s (snd (sweep_loop s fs g)) = K_s g \<and>
   Y_xs (snd (sweep_loop s fs g)) = Y_xs g \<and> Y_px (snd (sweep_loop s fs g)) = Y_px g \<and>
   S_f (snd (sweep_loop s fs g)) = S_f g \<and> x0 (snd (sweep_loop s fs g)) = x0 g \<and>
   tspan (snd (sweep_loop s fs g)) = tspan g \<and> tsmooth (snd (sweep_loop s fs g)) = tsmooth g \<and>
   Fs (snd (sweep_loop s fs g)) = Fs g \<and> namespace.more (snd (sweep_loop s fs g)) = namespace.more g"
proof (induction fs arbitrary: g)
  case Nil
  then show ?case by simp
next
  case (Cons Fv rest)
  show ?case
    by (cases "solver_call s g Fv") (simp_all add: sweep_loop_Cons Cons.IH del: sweep_loop.simps(2))
qed

lemma sweep_loop_raises:
  "fst (sweep_loop s fs g) = Some e \<Longrightarrow>
     \<exists>k < length fs. solver_call s g (fs ! k) = Inl e \<and>
        (\<exists>rs. map (solver_call s g) (take k fs) = map Inr rs \<and>
              results (snd (sweep_loop s fs g)) = results g @ rs \<and>
              F (snd (sweep_loop s fs g)) = fs ! k)"
proof (induction fs arbitrary: g)
  case Nil
  then show ?case by simp
next
  case (Cons Fv rest)
  show ?case
  proof (cases "solver_call s g Fv")
    case (Inl e')
    with Cons.prems have "e' = e" by (simp add: sweep_loop_Cons del: sweep_loop.simps(2))
    with Inl show ?thesis
      by (intro exI [of _ 0]) (simp add: sweep_loop_Cons del: sweep_loop.simps(2))
  next
    case (Inr r)
    let ?g = "g\<lparr>F := Fv, out := Some r, results := results g @ [r]\<rparr>"
    from Cons.prems Inr have "fst (sweep_loop s rest ?g) = Some e"
      by (simp add: sweep_loop_Cons del: sweep_loop.simps(2))
    from Cons.IH [OF this] obtain k rs where k: "k < length rest"
      "solver_call s g (rest ! k) = Inl e"
      "map (solver_call s g) (take k rest) = map Inr rs"
      "results (snd (sweep_loop s rest ?g)) = results g @ r # rs"
      "F (snd (sweep_loop s rest ?g)) = rest ! k"
      by auto
    have "map (solver_call s g) (take (Suc k) (Fv # rest)) = map Inr (r # rs)"
      using k(3) Inr by simp
    moreover have "results (snd (sweep_loop s (Fv # rest) g)) = results g @ r # rs"
      "F (snd (sweep_loop s (Fv # rest) g)) = (Fv # rest) ! Suc k"
      using k(4,5) Inr by (simp_all add: sweep_loop_Cons del: sweep_loop.simps(2))
    ultimately show ?thesis
      using k(1,2) by (intro exI [of _ "Suc k"]) auto
  qed
qed

lemma solver_call_Fs [simp]: "solver_call s (g\<lparr>Fs := fs\<rparr>) = solver_call s g"
proof
  fix Fv
  have "dxdt (g\<lparr>Fs := fs, F := Fv\<rparr>) = dxdt (g\<lparr>F := Fv\<rparr>)"
    by (intro ext dxdt_cong) simp_all
  then show "solver_call s (g\<lparr>Fs := fs\<rparr>) Fv = solver_call s g Fv"
    by (simp add: solver_call_def)
qed

lemma sweep_loop_None:
  "fst (sweep_loop s fs g) = None \<Longrightarrow> \<exists>rs. map (solver_call s g) fs = map Inr rs"
proof (induction fs arbitrary: g)
  case Nil
  then show ?case by simp
next
  case (Cons Fv rest)
  show ?case
  proof (cases "solver_call s g Fv")
    case (Inl e)
    with Cons.prems show ?thesis
      by (simp add: sweep_loop_Cons del: sweep_loop.simps(2))
  next
    case (Inr r)
    let ?g = "g\<lparr>F := Fv, out := Some r, results := results g @ [r]\<rparr>"
    from Cons.prems Inr have "fst (sweep_loop s rest ?g) = None"
      by (simp add: sweep_loop_Cons del: sweep_loop.simps(2))
    from Cons.IH [OF this] obtain rs where "map (solver_call s g) rest = map Inr rs"
      by auto
    with Inr have "map (solver_call s g) (Fv # rest) = map Inr (r # rs)"
      by simp
    then show ?thesis ..
  qed
qed

lemma sweep_single:
  "fst (sweep s (g\<lparr>Fs := [Fv]\<rparr>)) = None \<Longrightarrow>
     \<exists>r. solver_call s g Fv = Inr r \<and> results (snd (sweep s (g\<lparr>Fs := [Fv]\<rparr>))) = results g @ [r]"
  by (cases "solver_call s g Fv") (simp_all add: sweep_def sweep_loop_Cons del: sweep_loop.simps(2))

lemma sweep_pair:
  assumes "solver_call s g a = Inr ra" "solver_call s g b = Inr rb"
  shows "fst (sweep s (g\<lparr>Fs := [a, b]\<rparr>)) = None"
    and "results (snd (sweep s (g\<lparr>Fs := [a, b]\<rparr>))) = results g @ [ra, rb]"
    and "F (snd (sweep s (g\<lparr>Fs := [a, b]\<rparr>))) = b"
proof -
  have "map (solver_call s (g\<lparr>Fs := [a, b]\<rparr>)) [a, b] = map Inr [ra, rb]"
    using assms by simp
  from sweep_loop_returns [OF this]
  show "fst (sweep s (g\<lparr>Fs := [a, b]\<rparr>)) = None"
    and "results (snd (sweep s (g\<lparr>Fs := [a, b]\<rparr>))) = results g @ [ra, rb]"
    and "F (snd (sweep s (g\<lparr>Fs := [a, b]\<rparr>))) = b"
    by (simp_all add: sweep_def del: sweep_loop.simps(2))
qed

text \<open>The two solver calls of the notebook's sweep, for the single-step solver.\<close>

lemma euler1_notebook:
  "solver_call euler1 notebook 0.05 =
     Inr [(0, [0.05, 10, 0, 1]), (30, [0.05 + 30 * (29 / 4400), 10 + 30 * (- 1 / 55), 0 + 30 * (1 / 550), 1 + 30 * (1 / 20)])]"
  "solver_call euler1 notebook 0.02 =
     Inr [(0, [0.05, 10, 0, 1]), (30, [0.05 + 30 * (89 / 11000), 10 + 30 * (- 1 / 55), 0 + 30 * (1 / 550), 1 + 30 * (1 / 50)])]"
  by (simp_all add: solver_call_def euler1_def notebook_def monod_def truediv_def)

section \<open>Exact solutions\<close>









section \<open>Rounding\<close>

text \<open>The binary digits of a positive number \<open>n\<close> number \<open>k + 1\<close> when \<open>2 ^ k \<le> n < 2 ^ (k + 1)\<close>.\<close>

lemma bit_length_bounds:
  "0 < n \<Longrightarrow> 2 ^ (bit_length n - 1) \<le> n \<and> n < 2 ^ bit_length n"
proof (induction n rule: bit_length.induct)
  case (1 n)
  show ?case
  proof (cases "n div 2 = 0")
    case True
    with 1(2) have "n = 1"
      by (simp add: div_eq_0_iff)
    then show ?thesis
      by (simp add: bit_length.simps)
  next
    case False
    then have pos: "0 < n div 2"
      by simp
    from 1(2) have n0: "n \<noteq> 0"
      by simp
    from 1(1) [OF n0 pos]
    have ih: "2 ^ (bit_length (n div 2) - 1) \<le> n div 2" "n div 2 < 2 ^ bit_length (n div 2)"
      by simp_all
    have bl: "bit_length n = Suc (bit_length (n div 2))"
      using n0 by (subst bit_length.simps) simp
    have blpos: "0 < bit_length (n div 2)"
      using False by (subst bit_length.simps) simp
    have "2 * 2 ^ (bit_length (n div 2) - 1) \<le> 2 * (n div 2)"
      using ih(1) by simp
    also have "\<dots> \<le> n"
      by simp
    finally have lo: "2 ^ bit_length (n div 2) \<le> n"
      using blpos by (cases "bit_length (n div 2)") simp_all
    have "n < 2 * (n div 2) + 2"
      by presburger
    also have "\<dots> \<le> 2 * 2 ^ bit_length (n div 2)"
      using ih(2) by simp
    finally have hi: "n < 2 ^ Suc (bit_length (n div 2))"
      by simp
    show ?thesis
      using lo hi bl by simp
  qed
qed

lemma bit_length_eq:
  assumes "2 ^ k \<le> n" "n < 2 ^ Suc k"
  shows "bit_length n = Suc k"
proof -
  have "(0::nat) < 2 ^ k"
    by simp
  with assms(1) have pos: "0 < n"
    by linarith
  from bit_length_bounds [OF pos]
  have b: "2 ^ (bit_length n - 1) \<le> n" "n < 2 ^ bit_length n"
    by simp_all
  have "(2::nat) ^ k < 2 ^ bit_length n"
    using assms(1) b(2) by linarith
  then have 1: "k < bit_length n"
    by simp
  have "(2::nat) ^ (bit_length n - 1) < 2 ^ Suc k"
    using assms(2) b(1) by linarith
  then have 2: "bit_length n - 1 < Suc k"
    by (simp del: power_Suc)
  from 1 2 show ?thesis
    by linarith
qed

lemma ilog2_eq:
  assumes lo: "2 powi e \<le> a" and hi: "a < 2 powi (e + 1)"
  shows "ilog2 a = e"
proof (cases "1 \<le> a")
  case True
  have e0: "0 \<le> e"
  proof (rule ccontr)
    assume "\<not> 0 \<le> e"
    then have "e + 1 \<le> 0"
      by simp
    then have "(2::real) powi (e + 1) \<le> 2 powi 0"
      by (intro power_int_increasing) simp_all
    with hi True show False
      by simp
  qed
  define k where "k = nat e"
  have e: "e = int k"
    using e0 by (simp add: k_def)
  have lo': "(2::real) ^ k \<le> a"
    using lo by (simp add: e)
  have hi': "a < (2::real) ^ Suc k"
    using hi by (simp add: e power_int_add)
  define m where "m = nat \<lfloor>a\<rfloor>"
  have fl0: "0 \<le> \<lfloor>a\<rfloor>"
    using True by simp
  have "of_int ((2::int) ^ k) \<le> a"
    using lo' by simp
  then have "(2::int) ^ k \<le> \<lfloor>a\<rfloor>"
    by (simp only: le_floor_iff)
  then have m1: "2 ^ k \<le> m"
    using fl0 by (simp add: m_def le_nat_iff)
  have "of_int \<lfloor>a\<rfloor> < (of_int ((2::int) ^ Suc k) :: real)"
    using hi' of_int_floor_le [of a] by (simp del: of_int_floor_le)
  then have "\<lfloor>a\<rfloor> < (2::int) ^ Suc k"
    by (simp only: of_int_less_iff)
  then have m2: "m < 2 ^ Suc k"
    using fl0 by (simp add: m_def nat_less_iff)
  have "bit_length m = Suc k"
    using m1 m2 by (rule bit_length_eq)
  then show ?thesis
    using True by (simp add: ilog2_def m_def e)
next
  case False
  have apos: "0 < a"
    using lo by (rule less_le_trans [rotated]) simp
  have e0: "e < 0"
  proof (rule ccontr)
    assume "\<not> e < 0"
    then have "(2::real) powi 0 \<le> 2 powi e"
      by (intro power_int_increasing) simp_all
    with lo False show False
      by simp
  qed
  define k where "k = nat (- e) - 1"
  have e: "e = - int (Suc k)"
    using e0 by (simp add: k_def)
  have "(2::real) powi e = inverse (2 ^ Suc k)"
    unfolding e by (simp only: power_int_minus power_int_of_nat)
  then have lo': "1 / (2::real) ^ Suc k \<le> a"
    using lo by (simp add: divide_inverse del: power_Suc)
  have e1: "e + 1 = - int k"
    by (simp add: e)
  have hi': "a < 1 / (2::real) ^ k"
    using hi unfolding e1 by (simp add: power_int_minus divide_inverse)
  have c1: "1 / a \<le> (2::real) ^ Suc k"
    using lo' apos by (simp add: field_simps del: power_Suc)
  have c2: "(2::real) ^ k < 1 / a"
    using hi' apos by (simp add: field_simps)
  define c where "c = \<lceil>1 / a\<rceil>"
  have "1 / a \<le> of_int ((2::int) ^ Suc k)"
    using c1 by simp
  then have u: "c \<le> (2::int) ^ Suc k"
    unfolding c_def by (simp only: ceiling_le_iff)
  have "of_int ((2::int) ^ k) < 1 / a"
    using c2 by simp
  then have l: "(2::int) ^ k < c"
    unfolding c_def by (simp only: less_ceiling_iff)
  define m where "m = nat (c - 1)"
  have "(0::int) < 2 ^ k"
    by simp
  with l have cpos: "0 \<le> c - 1"
    by linarith
  have m1: "2 ^ k \<le> m"
    using l cpos by (simp add: m_def le_nat_iff)
  have m2: "m < 2 ^ Suc k"
    using u cpos by (simp add: m_def nat_less_iff del: power_Suc)
  have "bit_length m = Suc k"
    using m1 m2 by (rule bit_length_eq)
  then show ?thesis
    using False by (simp add: ilog2_def m_def c_def e)
qed

text \<open>The exponent that \<open>ilog2\<close> computes is the binary exponent.\<close>

lemma ilog2_bounds:
  assumes "0 < a"
  shows "2 powi (ilog2 a) \<le> a \<and> a < 2 powi (ilog2 a + 1)"
proof (cases "1 \<le> a")
  case True
  define m where "m = nat \<lfloor>a\<rfloor>"
  have fl: "1 \<le> \<lfloor>a\<rfloor>"
    using True by simp
  then have mpos: "0 < m"
    by (simp add: m_def)
  have m: "real m = of_int \<lfloor>a\<rfloor>"
    using fl by (simp add: m_def)
  from bit_length_bounds [OF mpos]
  have b: "2 ^ (bit_length m - 1) \<le> m" "m < 2 ^ bit_length m"
    by simp_all
  have blpos: "0 < bit_length m"
    using mpos by (subst bit_length.simps) simp
  have il: "ilog2 a = int (bit_length m - 1)"
    using True blpos by (simp add: ilog2_def m_def)
  have "real (2 ^ (bit_length m - 1)) \<le> real m"
    using b(1) by (simp only: of_nat_le_iff)
  then have "(2::real) ^ (bit_length m - 1) \<le> real m"
    by simp
  also have "real m \<le> a"
    unfolding m by (rule of_int_floor_le)
  finally have lo: "(2::real) ^ (bit_length m - 1) \<le> a" .
  have "m + 1 \<le> 2 ^ bit_length m"
    using b(2) by simp
  then have "real (m + 1) \<le> real (2 ^ bit_length m)"
    by (simp only: of_nat_le_iff)
  moreover have "a < real (m + 1)"
    using m by simp linarith
  ultimately have "a < (2::real) ^ bit_length m"
    by simp
  then have hi: "a < (2::real) ^ Suc (bit_length m - 1)"
    using blpos by simp
  have "int (bit_length m - 1) + 1 = int (Suc (bit_length m - 1))"
    by simp
  then have "(2::real) powi (int (bit_length m - 1) + 1) = 2 ^ Suc (bit_length m - 1)"
    by (simp only: power_int_of_nat)
  with lo hi show ?thesis
    unfolding il by (simp only: power_int_of_nat)
next
  case False
  define c where "c = \<lceil>1 / a\<rceil>"
  define m where "m = nat (c - 1)"
  have inv: "1 < 1 / a"
    using assms False by simp
  then have c2: "2 \<le> c"
    unfolding c_def by linarith
  then have mpos: "0 < m"
    by (simp add: m_def)
  have m: "real m = of_int c - 1"
    using c2 by (simp add: m_def)
  from bit_length_bounds [OF mpos]
  have b: "2 ^ (bit_length m - 1) \<le> m" "m < 2 ^ bit_length m"
    by simp_all
  have blpos: "0 < bit_length m"
    using mpos by (subst bit_length.simps) simp
  have il: "ilog2 a = - int (bit_length m)"
    using False by (simp add: ilog2_def m_def c_def)
  have "m + 1 \<le> 2 ^ bit_length m"
    using b(2) by simp
  then have "real (m + 1) \<le> real (2 ^ bit_length m)"
    by (simp only: of_nat_le_iff)
  then have "of_int c \<le> (2::real) ^ bit_length m"
    using m by simp
  moreover have "1 / a \<le> of_int c"
    unfolding c_def by linarith
  ultimately have "1 / a \<le> (2::real) ^ bit_length m"
    by linarith
  then have lo: "1 / (2::real) ^ bit_length m \<le> a"
    using assms by (simp add: field_simps)
  have "real (2 ^ (bit_length m - 1)) \<le> real m"
    using b(1) by (simp only: of_nat_le_iff)
  then have "(2::real) ^ (bit_length m - 1) \<le> real m"
    by simp
  also have "real m < 1 / a"
    using m unfolding c_def by linarith
  finally have "(2::real) ^ (bit_length m - 1) < 1 / a" .
  then have hi: "a < 1 / (2::real) ^ (bit_length m - 1)"
    using assms by (simp add: field_simps)
  have e1: "- int (bit_length m) + 1 = - int (bit_length m - 1)"
    using blpos by simp
  have p1: "(2::real) powi (- int (bit_length m)) = 1 / 2 ^ bit_length m"
    by (simp only: power_int_minus power_int_of_nat) (simp add: divide_inverse)
  have p2: "(2::real) powi (- int (bit_length m - 1)) = 1 / 2 ^ (bit_length m - 1)"
    by (simp only: power_int_minus power_int_of_nat) (simp add: divide_inverse)
  show ?thesis
    unfolding il e1 p1 p2 using lo hi by simp
qed

text \<open>Rounding to the nearest integer: off a tie, and on one.\<close>

lemma rne_nearest: "\<bar>of_int (rne y) - y\<bar> \<le> 1 / 2"
proof -
  have "of_int \<lfloor>y\<rfloor> \<le> y" "y < of_int \<lfloor>y\<rfloor> + 1"
    by linarith+
  then show ?thesis
    by (auto simp: rne_def Let_def)
qed

lemma rne_eq:
  assumes "\<bar>y - of_int n\<bar> < 1 / 2"
  shows "rne y = n"
proof -
  have f1: "of_int \<lfloor>y\<rfloor> \<le> y" and f2: "y < of_int \<lfloor>y\<rfloor> + 1"
    by linarith+
  from assms have n1: "of_int n - 1 / 2 < y" and n2: "y < of_int n + 1 / 2"
    by linarith+
  consider "y - of_int \<lfloor>y\<rfloor> < 1 / 2" | "1 / 2 < y - of_int \<lfloor>y\<rfloor>" | "y - of_int \<lfloor>y\<rfloor> = 1 / 2"
    by linarith
  then show ?thesis
  proof cases
    case 1
    have "(of_int \<lfloor>y\<rfloor> :: real) < of_int n + 1" "(of_int n :: real) < of_int \<lfloor>y\<rfloor> + 1"
      using 1 f1 n1 n2 by linarith+
    then have "\<lfloor>y\<rfloor> < n + 1" "n < \<lfloor>y\<rfloor> + 1"
      by linarith+
    then have "\<lfloor>y\<rfloor> = n"
      by linarith
    with 1 show ?thesis
      by (simp add: rne_def Let_def)
  next
    case 2
    have "(of_int \<lfloor>y\<rfloor> :: real) < of_int n" "(of_int n :: real) < of_int \<lfloor>y\<rfloor> + 2"
      using 2 f2 n1 n2 by linarith+
    then have "\<lfloor>y\<rfloor> < n" "n < \<lfloor>y\<rfloor> + 2"
      by linarith+
    then have "\<lfloor>y\<rfloor> + 1 = n"
      by linarith
    moreover have "\<not> y - of_int \<lfloor>y\<rfloor> < 1 / 2"
      using 2 by linarith
    ultimately show ?thesis
      using 2 by (simp add: rne_def Let_def)
  next
    case 3
    have "(of_int \<lfloor>y\<rfloor> :: real) < of_int n" "(of_int n :: real) < of_int \<lfloor>y\<rfloor> + 1"
      using 3 n1 n2 by linarith+
    then have "\<lfloor>y\<rfloor> < n" "n < \<lfloor>y\<rfloor> + 1"
      by linarith+
    then show ?thesis
      by linarith
  qed
qed


text \<open>
  The double nearest to \<open>a\<close>, for \<open>a\<close> of exponent \<open>e\<close> in the normal range, is
  \<open>n * 2 powi (e - 52)\<close> for the integer \<open>n\<close> nearest to \<open>a / 2 powi (e - 52)\<close>; and
  rounding is symmetric.
\<close>

lemma round_double_rne:
  assumes lo: "2 powi e \<le> a" and hi: "a < 2 powi (e + 1)"
    and e1: "- 1022 \<le> e" and e2: "e < 1023"
    and rn: "rne (a / 2 powi (e - 52)) = n" and npos: "0 < n"
  shows "round_double zs a = Finite (of_int n * 2 powi (e - 52))"
    and "round_double zs (- a) = Finite (- (of_int n * 2 powi (e - 52)))"
proof -
  have apos: "0 < a"
    using lo by (rule less_le_trans [rotated]) simp
  have il: "ilog2 a = e"
    using lo hi by (rule ilog2_eq)
  have mx: "max e (- 1022) = e"
    using e1 by simp
  have n0: "n \<noteq> 0"
    using npos by simp
  show "round_double zs a = Finite (of_int n * 2 powi (e - 52))"
    using apos il mx rn n0 e2 by (simp add: round_double_def Let_def)
  show "round_double zs (- a) = Finite (- (of_int n * 2 powi (e - 52)))"
    using apos il mx rn n0 e2 by (simp add: round_double_def Let_def)
qed

lemma scaled_significand:
  assumes lo: "2 powi e \<le> a"
  shows "(2::real) powi 52 \<le> a / 2 powi (e - 52)"
proof -
  have qpos: "(0::real) < 2 powi (e - 52)"
    by simp
  have "(2::real) powi (52 + (e - 52)) = 2 powi 52 * 2 powi (e - 52)"
    by (rule power_int_add) simp
  then have "(2::real) powi 52 * 2 powi (e - 52) = 2 powi e"
    by simp
  then have "(2::real) powi 52 * 2 powi (e - 52) \<le> a"
    using lo by simp
  then show ?thesis
    using qpos by (simp only: pos_le_divide_eq)
qed

lemma round_double_normal:
  assumes lo: "2 powi e \<le> a" and hi: "a < 2 powi (e + 1)"
    and e1: "- 1022 \<le> e" and e2: "e < 1023"
    and n: "\<bar>a / 2 powi (e - 52) - of_int n\<bar> < 1 / 2"
  shows "round_double zs a = Finite (of_int n * 2 powi (e - 52))"
    and "round_double zs (- a) = Finite (- (of_int n * 2 powi (e - 52)))"
proof -
  have rn: "rne (a / 2 powi (e - 52)) = n"
    using n by (rule rne_eq)
  have "(2::real) < 2 powi 52"
    by simp
  with scaled_significand [OF lo] have "(1::real) < a / 2 powi (e - 52) - 1 / 2"
    by linarith
  with n have "(0::real) < of_int n"
    by linarith
  then have npos: "0 < n"
    by simp
  show "round_double zs a = Finite (of_int n * 2 powi (e - 52))"
    by (rule round_double_rne(1) [OF lo hi e1 e2 rn npos])
  show "round_double zs (- a) = Finite (- (of_int n * 2 powi (e - 52)))"
    by (rule round_double_rne(2) [OF lo hi e1 e2 rn npos])
qed


text \<open>
  What \<open>round_double\<close> returns as a finite value is not zero, and lies within
  half a spacing of the number rounded.
\<close>

lemma round_double_nearest:
  assumes "round_double zs x = Finite r"
  shows "r \<noteq> 0 \<and> \<bar>r - x\<bar> \<le> 2 powi (max (ilog2 \<bar>x\<bar>) (- 1022) - 52) / 2"
proof -
  define q :: real where "q = 2 powi (max (ilog2 \<bar>x\<bar>) (- 1022) - 52)"
  define n where "n = rne (\<bar>x\<bar> / q)"
  have qpos: "0 < q"
    by (simp add: q_def)
  from assms have x0: "x \<noteq> 0"
    by (auto simp: round_double_def)
  from assms x0 have n0: "n \<noteq> 0" and r: "r = (if x < 0 then - (of_int n * q) else of_int n * q)"
    unfolding round_double_def Let_def q_def [symmetric] n_def [symmetric]
    by (auto split: if_splits)
  have "\<bar>of_int n - \<bar>x\<bar> / q\<bar> \<le> 1 / 2"
    unfolding n_def by (rule rne_nearest)
  then have "\<bar>of_int n - \<bar>x\<bar> / q\<bar> * q \<le> 1 / 2 * q"
    using qpos by (intro mult_right_mono) simp_all
  moreover have "\<bar>of_int n - \<bar>x\<bar> / q\<bar> * q = \<bar>of_int n * q - \<bar>x\<bar>\<bar>"
  proof -
    have "\<bar>of_int n - \<bar>x\<bar> / q\<bar> * q = \<bar>(of_int n - \<bar>x\<bar> / q) * q\<bar>"
      using qpos by (simp add: abs_mult)
    also have "(of_int n - \<bar>x\<bar> / q) * q = of_int n * q - \<bar>x\<bar>"
      using qpos by (simp add: field_simps)
    finally show ?thesis .
  qed
  ultimately have d: "\<bar>of_int n * q - \<bar>x\<bar>\<bar> \<le> q / 2"
    by simp
  have "r \<noteq> 0"
    using n0 qpos r by auto
  moreover have "\<bar>r - x\<bar> \<le> q / 2"
  proof -
    define p where "p = of_int n * q"
    have rp: "r = (if x < 0 then - p else p)" and dp: "\<bar>p - \<bar>x\<bar>\<bar> \<le> q / 2"
      using r d by (simp_all add: p_def)
    show ?thesis
    proof (cases "x < 0")
      case True
      with rp have "r = - p"
        by simp
      with dp True show ?thesis
        by linarith
    next
      case False
      with rp have "r = p"
        by simp
      with dp False show ?thesis
        by linarith
    qed
  qed
  ultimately show ?thesis
    unfolding q_def by simp
qed

lemma is_double_round [simp]: "is_double (round_double zs x)"
proof (cases "round_double zs x")
  case (Finite r)
  with round_double_nearest [OF Finite] show ?thesis
    by simp
qed simp_all

lemma is_double_operations:
  assumes "is_double a" "is_double b"
  shows "is_double (d_neg a)" "is_double (d_mul a b)" "is_double (d_add a b)"
    "is_double (d_sub a b)" "is_double (d_div a b)"
proof -
  show n: "is_double (d_neg a)"
    using assms(1) by (cases a) simp_all
  show "is_double (d_mul a b)"
    using assms by (cases a; cases b) simp_all
  show "is_double (d_add a b)"
    using assms by (cases a; cases b) simp_all
  have "is_double (d_neg b)"
    using assms(2) by (cases b) simp_all
  with assms(1) show "is_double (d_sub a b)"
    unfolding d_sub_def by (cases a; cases "d_neg b") simp_all
  show "is_double (d_div a b)"
    using assms by (cases a; cases b) simp_all
qed

lemma round_double_zero [simp]: "round_double zs 0 = Zero zs"
  by (simp add: round_double_def)

lemma round_double_one [simp]: "round_double zs 1 = Finite 1"
  using round_double_normal(1) [where e=0 and n=4503599627370496 and a=1 and zs=zs]
  by (simp add: power_int_minus)

section \<open>Python's operators on given kinds of operands\<close>

lemma int_to_double_zero [simp]: "int_to_double 0 = Inr (Zero False)"
  by (simp add: int_to_double_def)

lemma int_to_double_one [simp]: "int_to_double 1 = Inr (Finite 1)"
  by (simp add: int_to_double_def)

lemma int_to_double_cases:
  "int_to_double n = Inl OverflowError \<or> (\<exists>d. int_to_double n = Inr d)"
  by (simp add: int_to_double_def split: dbl.splits)

lemma py_mul_simps [simp]:
  "py_mul (PyInt i) (PyInt j) = Inr (PyInt (i * j))"
  "py_mul (PyFloat x) (PyFloat y) = Inr (PyFloat (d_mul x y))"
  "py_mul (PyFloat x) (NpFloat y) = Inr (NpFloat (d_mul x y))"
  "py_mul (NpFloat x) (PyFloat y) = Inr (NpFloat (d_mul x y))"
  "py_mul (NpFloat x) (NpFloat y) = Inr (NpFloat (d_mul x y))"
  "py_mul (PyInt i) (PyFloat y) = and_then (int_to_double i) (\<lambda>x. Inr (PyFloat (d_mul x y)))"
  "py_mul (PyFloat x) (PyInt j) = and_then (int_to_double j) (\<lambda>y. Inr (PyFloat (d_mul x y)))"
  "py_mul (PyInt i) (NpFloat y) = and_then (int_to_double i) (\<lambda>x. Inr (NpFloat (d_mul x y)))"
  "py_mul (NpFloat x) (PyInt j) = and_then (int_to_double j) (\<lambda>y. Inr (NpFloat (d_mul x y)))"
  by (simp_all add: py_mul_def py_binop_def float_result_def)

lemma py_add_simps [simp]:
  "py_add (PyInt i) (PyInt j) = Inr (PyInt (i + j))"
  "py_add (PyFloat x) (PyFloat y) = Inr (PyFloat (d_add x y))"
  "py_add (PyFloat x) (NpFloat y) = Inr (NpFloat (d_add x y))"
  "py_add (NpFloat x) (PyFloat y) = Inr (NpFloat (d_add x y))"
  "py_add (NpFloat x) (NpFloat y) = Inr (NpFloat (d_add x y))"
  "py_add (PyInt i) (PyFloat y) = and_then (int_to_double i) (\<lambda>x. Inr (PyFloat (d_add x y)))"
  "py_add (PyFloat x) (PyInt j) = and_then (int_to_double j) (\<lambda>y. Inr (PyFloat (d_add x y)))"
  "py_add (PyInt i) (NpFloat y) = and_then (int_to_double i) (\<lambda>x. Inr (NpFloat (d_add x y)))"
  "py_add (NpFloat x) (PyInt j) = and_then (int_to_double j) (\<lambda>y. Inr (NpFloat (d_add x y)))"
  by (simp_all add: py_add_def py_binop_def float_result_def)

lemma py_sub_simps [simp]:
  "py_sub (PyInt i) (PyInt j) = Inr (PyInt (i - j))"
  "py_sub (PyFloat x) (PyFloat y) = Inr (PyFloat (d_sub x y))"
  "py_sub (PyFloat x) (NpFloat y) = Inr (NpFloat (d_sub x y))"
  "py_sub (NpFloat x) (PyFloat y) = Inr (NpFloat (d_sub x y))"
  "py_sub (NpFloat x) (NpFloat y) = Inr (NpFloat (d_sub x y))"
  "py_sub (PyInt i) (PyFloat y) = and_then (int_to_double i) (\<lambda>x. Inr (PyFloat (d_sub x y)))"
  "py_sub (PyFloat x) (PyInt j) = and_then (int_to_double j) (\<lambda>y. Inr (PyFloat (d_sub x y)))"
  "py_sub (PyInt i) (NpFloat y) = and_then (int_to_double i) (\<lambda>x. Inr (NpFloat (d_sub x y)))"
  "py_sub (NpFloat x) (PyInt j) = and_then (int_to_double j) (\<lambda>y. Inr (NpFloat (d_sub x y)))"
  by (simp_all add: py_sub_def py_binop_def float_result_def)

lemma py_truediv_simps [simp]:
  "py_truediv (PyInt i) (PyInt j) = int_truediv i j"
  "py_truediv (PyFloat x) (PyFloat y) =
     (if is_zero y then Inl ZeroDivisionError else Inr (PyFloat (d_div x y)))"
  "py_truediv (PyFloat x) (NpFloat y) = Inr (NpFloat (d_div x y))"
  "py_truediv (NpFloat x) (PyFloat y) = Inr (NpFloat (d_div x y))"
  "py_truediv (NpFloat x) (NpFloat y) = Inr (NpFloat (d_div x y))"
  "py_truediv (PyInt i) (PyFloat y) =
     and_then (int_to_double i) (\<lambda>x.
       if is_zero y then Inl ZeroDivisionError else Inr (PyFloat (d_div x y)))"
  "py_truediv (PyFloat x) (PyInt j) =
     and_then (int_to_double j) (\<lambda>y.
       if is_zero y then Inl ZeroDivisionError else Inr (PyFloat (d_div x y)))"
  "py_truediv (PyInt i) (NpFloat y) = and_then (int_to_double i) (\<lambda>x. Inr (NpFloat (d_div x y)))"
  "py_truediv (NpFloat x) (PyInt j) = and_then (int_to_double j) (\<lambda>y. Inr (NpFloat (d_div x y)))"
  by (simp_all add: py_truediv_def)

lemma python_arith_simps [simp]:
  "a_mul python_arith = py_mul" "a_add python_arith = py_add" "a_sub python_arith = py_sub"
  "a_div python_arith = py_truediv" "a_neg python_arith = py_neg" "a_one python_arith = PyInt 1"
  by (simp_all add: python_arith_def)

lemma exact_arith_simps [simp]:
  "a_mul exact_arith a b = Inr (a * b)" "a_add exact_arith a b = Inr (a + b)"
  "a_sub exact_arith a b = Inr (a - b)" "a_div exact_arith = truediv"
  "a_neg exact_arith a = Inr (- a)" "a_one exact_arith = 1"
  by (simp_all add: exact_arith_def)

text \<open>An operator on Python numbers raises nothing but the two arithmetic errors.\<close>

lemma as_double_error: "as_double a = Inl e \<Longrightarrow> e = OverflowError"
  by (cases a) (auto simp: int_to_double_def split: dbl.splits)

lemma py_binop_error: "py_binop iop fop a b = Inl e \<Longrightarrow> e = OverflowError"
  by (cases a; cases b)
    (auto simp: py_binop_def and_then_def int_to_double_def split: sum.splits dbl.splits)

lemma py_truediv_error:
  "py_truediv a b = Inl e \<Longrightarrow> e = ZeroDivisionError \<or> e = OverflowError"
  by (cases a; cases b)
    (auto simp: and_then_def int_to_double_def int_truediv_def
      split: sum.splits dbl.splits if_splits)

lemma py_truediv_one_zero:
  "V = PyInt 0 \<or> V = PyFloat (Zero s) \<Longrightarrow> py_truediv (PyInt 1) V = Inl ZeroDivisionError"
  by (auto simp: int_truediv_def)

section \<open>The derivative function over an arithmetic: basic facts\<close>


lemma and_then_Inl_cases:
  assumes "and_then m k = Inl e"
  shows "m = Inl e \<or> (\<exists>v. m = Inr v \<and> k v = Inl e)"
  using assms by (cases m) simp_all

text \<open>The real-number reading of the source is the transcription at the exact arithmetic.\<close>

lemma monod_exact: "monod g S = monod_on exact_arith (exact_globals g) S"
  by (simp add: monod_def monod_on_def exact_globals_def)






section \<open>The derivative function on float operands\<close>

lemma map_NpFloat_4: "map NpFloat [a, b, c] @ [v] = [NpFloat a, NpFloat b, NpFloat c, v]"
  by simp

lemma py_mul_float_number:
  assumes "as_double sf = Inr d" "\<not> is_np sf"
  shows "py_mul (PyFloat f) sf = Inr (PyFloat (d_mul f d))"
  using assms by (cases sf) simp_all

text \<open>
  On a \<^verbatim>\<open>float64\<close> state, as passed by \<^verbatim>\<open>solve_ivp\<close>, the only operation of \<^verbatim>\<open>dxdt\<close>
  between two Python numbers that can raise is \<^verbatim>\<open>1 / Y_xs\<close>. Everything else is
  done by numpy, and returns.
\<close>

lemma dxdt_float64:
  assumes sf: "as_double sf = Inr (S_f_val D)" "\<not> is_np sf"
  shows "dxdt_on python_arith (float_globals D sf) [NpFloat X, NpFloat S, NpFloat P, NpFloat V] =
     (if is_zero (Y_xs_val D) then Inl ZeroDivisionError
      else Inr (map NpFloat (double_rates D X S P V) @ [PyFloat (F_val D)]))"
  by (simp add: monod_on_def float_globals_def double_rates_def Let_def
      py_mul_float_number [OF sf])

text \<open>On a state of Python floats each of the three divisions raises on a zero divisor.\<close>

lemma dxdt_pyfloat:
  assumes sf: "as_double sf = Inr (S_f_val D)" "\<not> is_np sf"
  shows "dxdt_on python_arith (float_globals D sf) [PyFloat X, PyFloat S, PyFloat P, PyFloat V] =
     (if is_zero (d_add (K_s_val D) S) \<or> is_zero V \<or> is_zero (Y_xs_val D)
      then Inl ZeroDivisionError
      else Inr (map PyFloat (double_rates D X S P V) @ [PyFloat (F_val D)]))"
  by (simp add: monod_on_def float_globals_def double_rates_def Let_def
      py_mul_float_number [OF sf])

text \<open>
  A Python zero in the place of \<open>V\<close> makes \<^verbatim>\<open>1/V\<close> raise, unless an earlier line has
  raised already; the operators raise nothing but the two arithmetic errors.
\<close>

lemma monod_on_python_error:
  "monod_on python_arith G S = Inl e \<Longrightarrow> e = ZeroDivisionError \<or> e = OverflowError"
  unfolding monod_on_def python_arith_simps
  by (auto dest!: and_then_Inl_cases dest: py_binop_error py_truediv_error
      simp: py_mul_def py_add_def)

lemma dxdt_python_zero_volume:
  assumes V: "V = PyInt 0 \<or> V = PyFloat (Zero s)"
  shows "\<exists>e. dxdt_on python_arith G [X, S, P, V] = Inl e
           \<and> (e = ZeroDivisionError \<or> e = OverflowError)"
proof (cases "monod_on python_arith G S")
  case (Inl e)
  with monod_on_python_error [OF Inl] show ?thesis
    by simp
next
  case mu: (Inr mu)
  show ?thesis
  proof (cases "py_mul mu X")
    case (Inl e)
    moreover from Inl have "e = OverflowError"
      unfolding py_mul_def by (rule py_binop_error)
    ultimately show ?thesis
      using mu by simp
  next
    case rg: (Inr rg)
    show ?thesis
    proof (cases "py_mul (Y_px_val G) rg")
      case (Inl e)
      moreover from Inl have "e = OverflowError"
        unfolding py_mul_def by (rule py_binop_error)
      ultimately show ?thesis
        using mu rg by simp
    next
      case rp: (Inr rp)
      show ?thesis
        using mu rg rp py_truediv_one_zero [OF V] by (simp add: Let_def)
    qed
  qed
qed

text \<open>
  Python's \<^verbatim>\<open>int\<close>s are unbounded, the doubles are not: an \<^verbatim>\<open>int\<close> of \<open>2 ^ 1024\<close> or a
  higher power of two cannot take part in a float operation, while \<^verbatim>\<open>1 / n\<close>
  returns for every \<^verbatim>\<open>int\<close> \<open>n > 1\<close>.
\<close>

lemma int_to_double_overflow:
  assumes "1024 \<le> k"
  shows "int_to_double (2 ^ k) = Inl OverflowError"
proof -
  let ?a = "of_int ((2::int) ^ k) :: real"
  have a: "?a = 2 powi int k"
    by simp
  have "ilog2 ?a = int k"
  proof (rule ilog2_eq)
    show "2 powi int k \<le> ?a"
      by (simp only: a)
    have "(2::real) powi int k < 2 powi (int k + 1)"
      by (intro power_int_strict_increasing) simp_all
    then show "?a < 2 powi (int k + 1)"
      by (simp only: a)
  qed
  moreover have "?a \<noteq> 0" "\<bar>?a\<bar> = ?a"
    by simp_all
  ultimately have "round_double False ?a = Infty False"
    using assms unfolding round_double_def Let_def by (simp del: of_int_power)
  then show ?thesis
    by (simp add: int_to_double_def del: of_int_power)
qed

lemma int_truediv_one_returns:
  assumes "1 < n"
  shows "\<exists>d. int_truediv 1 n = Inr (PyFloat d)"
proof -
  let ?a = "1 / of_int n :: real"
  have pos: "0 < ?a" and lt: "?a < 1"
    using assms by simp_all
  define e where "e = max (ilog2 \<bar>?a\<bar>) (- 1022)"
  define m where "m = rne (\<bar>?a\<bar> / 2 powi (e - 52))"
  have "ilog2 ?a \<le> 0"
    using lt by (simp add: ilog2_def)
  then have e: "\<not> 1024 \<le> e" "e \<noteq> 1023"
    using pos by (simp_all add: e_def)
  have "round_double False ?a
      = (if m = 0 then Zero False else Finite (of_int m * 2 powi (e - 52)))"
    using pos e unfolding round_double_def Let_def e_def [symmetric] m_def [symmetric]
    by simp
  then have "\<exists>d. (case round_double False ?a of Infty s \<Rightarrow> Inl OverflowError | d \<Rightarrow> Inr (PyFloat d))
      = Inr (PyFloat d)"
    by (cases "m = 0") simp_all
  then show ?thesis
    using assms by (simp add: int_truediv_def)
qed

section \<open>The Euler steps on float64 states\<close>

lemma volume_of_state [simp]: "volume_of (t, [X, S, P, V]) = V"
  by simp



section \<open>Schedules\<close>

text \<open>Calls alone leave the namespace as it was, and each returns what it returns alone.\<close>

lemma run_actions_calls:
  "run_actions (map (\<lambda>c. Call_dxdt (fst c) (snd c)) cs) g
     = (map (\<lambda>c. dxdt g (fst c) (snd c)) cs, g)"
  by (induction cs) (simp_all del: dxdt.simps)

section \<open>Roundings of given numbers\<close>

text \<open>
  The doubles nearest to the rational numbers that occur in the examples below: the
  float literals, and the exact result of each operation on the way. Each one
  is an instance of \<open>round_double_normal\<close> or \<open>round_double_tie\<close>, with the exponent
  and the significand given.
\<close>

lemma rounding_1:
  "round_double False (1 / 5) = Finite (3602879701896397 / 18014398509481984)"
  using round_double_normal(1) [where e="- 3" and n=7205759403792794 and a="1 / 5" and zs=False]
  by (simp add: power_int_minus)

lemma rounding_2:
  "round_double False 1 = Finite 1"
  using round_double_normal(1) [where e="0" and n=4503599627370496 and a="1" and zs=False]
  by (simp add: power_int_minus)

lemma rounding_3:
  "round_double False (1 / 2) = Finite (1 / 2)"
  using round_double_normal(1) [where e="- 1" and n=4503599627370496 and a="1 / 2" and zs=False]
  by (simp add: power_int_minus)

lemma rounding_4:
  "round_double False (1 / 20) = Finite (3602879701896397 / 72057594037927936)"
  using round_double_normal(1) [where e="- 5" and n=7205759403792794 and a="1 / 20" and zs=False]
  by (simp add: power_int_minus)

lemma rounding_5:
  "round_double False 10 = Finite 10"
  using round_double_normal(1) [where e="3" and n=5629499534213120 and a="10" and zs=False]
  by (simp add: power_int_minus)
















lemma rounding_21:
  "round_double False (11 / 10) = Finite (2476979795053773 / 2251799813685248)"
  using round_double_normal(1) [where e="0" and n=4953959590107546 and a="11 / 10" and zs=False]
  by (simp add: power_int_minus)

lemma rounding_22:
  "round_double False (18014398509481985 / 9007199254740992) = Finite 2"
  using round_double_normal(1) [where e="1" and n=4503599627370496 and a="18014398509481985 / 9007199254740992" and zs=False]
  by (simp add: power_int_minus)

lemma rounding_23:
  "round_double False 11 = Finite 11"
  using round_double_normal(1) [where e="3" and n=6192449487634432 and a="11" and zs=False]
  by (simp add: power_int_minus)

lemma rounding_24:
  "round_double False (2 / 11) = Finite (3275345183542179 / 18014398509481984)"
  using round_double_normal(1) [where e="- 3" and n=6550690367084358 and a="2 / 11" and zs=False]
  by (simp add: power_int_minus)

lemma rounding_25:
  "round_double False (11800674678488245592900137629063 / 1298074214633706907132624082305024) = Finite (5240552293667487 / 576460752303423488)"
  using round_double_normal(1) [where e="- 7" and n=5240552293667487 and a="11800674678488245592900137629063 / 1298074214633706907132624082305024" and zs=False]
  by (simp add: power_int_minus)

lemma rounding_26:
  "round_double False (18881079485581195110368041344339 / 10384593717069655257060992658440192) = Finite (2096220917466995 / 1152921504606846976)"
  using round_double_normal(1) [where e="- 10" and n=8384883669867980 and a="18881079485581195110368041344339 / 10384593717069655257060992658440192" and zs=False]
  by (simp add: power_int_minus)

lemma rounding_27:
  "round_double False (2251799813685248 / 2476979795053773) = Finite (8188362958855447 / 9007199254740992)"
  using round_double_normal(1) [where e="- 1" and n=8188362958855447 and a="2251799813685248 / 2476979795053773" and zs=False]
  by (simp add: power_int_minus)

lemma rounding_28:
  "round_double False (12980742146337071965912546778451 / 1298074214633706907132624082305024) = Finite (1441151880758559 / 144115188075855872)"
  using round_double_normal(1) [where e="- 7" and n=5764607523034236 and a="12980742146337071965912546778451 / 1298074214633706907132624082305024" and zs=False]
  by (simp add: power_int_minus)

lemma rounding_29:
  "round_double False (12980742146337070512478121581609 / 5192296858534827628530496329220096) = Finite (1441151880758559 / 576460752303423488)"
  using round_double_normal(1) [where e="- 9" and n=5764607523034236 and a="12980742146337070512478121581609 / 5192296858534827628530496329220096" and zs=False]
  by (simp add: power_int_minus)

lemma rounding_30:
  "round_double False (4323455642275677 / 576460752303423488) = Finite (4323455642275677 / 576460752303423488)"
  using round_double_normal(1) [where e="- 8" and n=8646911284551354 and a="4323455642275677 / 576460752303423488" and zs=False]
  by (simp add: power_int_minus)

lemma rounding_31:
  "round_double False (35402024035464739529990367062619 / 5192296858534827628530496329220096) = Finite (7860828440501231 / 1152921504606846976)"
  using round_double_normal(1) [where e="- 8" and n=7860828440501231 and a="35402024035464739529990367062619 / 5192296858534827628530496329220096" and zs=False]
  by (simp add: power_int_minus)

lemma rounding_32:
  "round_double False (5192296858534829281760977722135 / 2596148429267413814265248164610048) = Finite (4611686018427389 / 2305843009213693952)"
  using round_double_normal(1) [where e="- 9" and n=4611686018427389 and a="5192296858534829281760977722135 / 2596148429267413814265248164610048" and zs=False]
  by (simp add: power_int_minus)

lemma rounding_33:
  "round_double False (37762158971162390469662316637883 / 20769187434139310514121985316880384) = Finite (2096220917466995 / 1152921504606846976)"
  using round_double_normal(1) [where e="- 10" and n=8384883669867980 and a="37762158971162390469662316637883 / 20769187434139310514121985316880384" and zs=False]
  by (simp add: power_int_minus)

lemma rounding_34:
  "round_double False (18014398509481985 / 36028797018963968) = Finite (1 / 2)"
  using round_double_normal(1) [where e="- 1" and n=4503599627370496 and a="18014398509481985 / 36028797018963968" and zs=False]
  by (simp add: power_int_minus)

lemma rounding_35:
  "round_double False 2 = Finite 2"
  using round_double_normal(1) [where e="1" and n=4503599627370496 and a="2" and zs=False]
  by (simp add: power_int_minus)

lemma rounding_36:
  "round_double False (2476979795053773 / 1125899906842624) = Finite (2476979795053773 / 1125899906842624)"
  using round_double_normal(1) [where e="1" and n=4953959590107546 and a="2476979795053773 / 1125899906842624" and zs=False]
  by (simp add: power_int_minus)

lemma rounding_37:
  "round_double False (12980742146337071965912546778451 / 649037107316853453566312041152512) = Finite (1441151880758559 / 72057594037927936)"
  using round_double_normal(1) [where e="- 6" and n=5764607523034236 and a="12980742146337071965912546778451 / 649037107316853453566312041152512" and zs=False]
  by (simp add: power_int_minus)

lemma rounding_38:
  "round_double False (34587645138205409 / 72057594037927936) = Finite (1080863910568919 / 2251799813685248)"
  using round_double_normal(1) [where e="- 2" and n=8646911284551352 and a="34587645138205409 / 72057594037927936" and zs=False]
  by (simp add: power_int_minus)

lemma rounding_39:
  "round_double False (- (45035996273705 / 2251799813685248)) = Finite (- (45035996273705 / 2251799813685248))"
  using round_double_normal(2) [where e="- 6" and n=5764607523034240 and a="45035996273705 / 2251799813685248" and zs=False]
  by (simp add: power_int_minus)

lemma rounding_40:
  "round_double True (- (368771083702757959323742121135 / 20282409603651670423947251286016)) = Finite (- (5240552293667491 / 288230376151711744))"
  using round_double_normal(2) [where e="- 6" and n=5240552293667491 and a="368771083702757959323742121135 / 20282409603651670423947251286016" and zs=True]
  by (simp add: power_int_minus)




lemma rounding_44:
  "round_double False (340909090909091 / 50000000000000000) = Finite (7860828440501231 / 1152921504606846976)"
  using round_double_normal(1) [where e="- 8" and n=7860828440501231 and a="340909090909091 / 50000000000000000" and zs=False]
  by (simp add: power_int_minus)

lemma rounding_45:
  "round_double False (- (90909090909091 / 5000000000000000)) = Finite (- (5240552293667491 / 288230376151711744))"
  using round_double_normal(2) [where e="- 6" and n=5240552293667491 and a="90909090909091 / 5000000000000000" and zs=False]
  by (simp add: power_int_minus)

lemma rounding_46:
  "round_double False (9090909090909093 / 5000000000000000000) = Finite (2096220917466995 / 1152921504606846976)"
  using round_double_normal(1) [where e="- 10" and n=8384883669867980 and a="9090909090909093 / 5000000000000000000" and zs=False]
  by (simp add: power_int_minus)























































































































































































section \<open>The derivative function: values\<close>





text \<open>
  The notebook's namespace is of this kind: floats bound to the five names, the
  \<^verbatim>\<open>int\<close> 10 to \<^verbatim>\<open>S_f\<close>.
\<close>

lemma notebook_py_float: "notebook_py = float_globals notebook_dbl (PyInt 10)"
  by (simp add: notebook_py_def float_globals_def notebook_dbl_def lit_def)

lemma notebook_dbl_S_f: "as_double (PyInt 10) = Inr (S_f_val notebook_dbl)"
  by (simp add: notebook_dbl_def int_to_double_def rounding_1 rounding_2 rounding_3 rounding_4 rounding_5 split: dbl.splits)




text \<open>
  C10 (as amended). \<^verbatim>\<open>dxdt\<close> guards none of its divisions, and what a zero divisor
  does depends on the kind of number it is. If \<open>V\<close> is a Python zero (the \<^verbatim>\<open>int\<close>
  \<open>0\<close> or a \<^verbatim>\<open>float\<close> zero), \<^verbatim>\<open>dxdt\<close> raises for every state and every namespace:
  \<^verbatim>\<open>ZeroDivisionError\<close> at \<^verbatim>\<open>1/V\<close>, unless an earlier line has raised that or an
  \<^verbatim>\<open>OverflowError\<close>. With floats bound to the parameters: on a state of Python
  floats \<^verbatim>\<open>dxdt\<close> raises \<^verbatim>\<open>ZeroDivisionError\<close> when one of \<open>K_s + S\<close> (as computed),
  \<open>V\<close> and \<open>Y_xs\<close> is zero, and returns a list of four otherwise; on a \<^verbatim>\<open>float64\<close>
  state, the only kind that \<^verbatim>\<open>solve_ivp\<close> passes, it raises only when \<^verbatim>\<open>Y_xs\<close> is
  zero and returns a list of four otherwise, also when \<open>V\<close> is zero.
\<close>

theorem dxdt_division_by_zero:
  fixes G :: "pynum model_globals" and D :: "dbl model_globals"
  shows
    "(V = PyInt 0 \<or> V = PyFloat (Zero s) \<longrightarrow>
        (\<exists>e. dxdt_on python_arith G [X, S, P, V] = Inl e
            \<and> (e = ZeroDivisionError \<or> e = OverflowError))) \<and>
     (as_double sf = Inr (S_f_val D) \<and> \<not> is_np sf \<longrightarrow>
        dxdt_on python_arith (float_globals D sf) [PyFloat Xd, PyFloat Sd, PyFloat Pd, PyFloat Vd]
          = (if is_zero (d_add (K_s_val D) Sd) \<or> is_zero Vd \<or> is_zero (Y_xs_val D)
             then Inl ZeroDivisionError
             else Inr (map PyFloat (double_rates D Xd Sd Pd Vd) @ [PyFloat (F_val D)])) \<and>
        dxdt_on python_arith (float_globals D sf) [NpFloat Xd, NpFloat Sd, NpFloat Pd, NpFloat Vd]
          = (if is_zero (Y_xs_val D) then Inl ZeroDivisionError
             else Inr (map NpFloat (double_rates D Xd Sd Pd Vd) @ [PyFloat (F_val D)])))"
proof (intro conjI impI)
  assume "V = PyInt 0 \<or> V = PyFloat (Zero s)"
  then show "\<exists>e. dxdt_on python_arith G [X, S, P, V] = Inl e
      \<and> (e = ZeroDivisionError \<or> e = OverflowError)"
    by (rule dxdt_python_zero_volume)
next
  assume h: "as_double sf = Inr (S_f_val D) \<and> \<not> is_np sf"
  then have sf: "as_double sf = Inr (S_f_val D)" "\<not> is_np sf"
    by simp_all
  show "dxdt_on python_arith (float_globals D sf) [PyFloat Xd, PyFloat Sd, PyFloat Pd, PyFloat Vd]
      = (if is_zero (d_add (K_s_val D) Sd) \<or> is_zero Vd \<or> is_zero (Y_xs_val D)
         then Inl ZeroDivisionError
         else Inr (map PyFloat (double_rates D Xd Sd Pd Vd) @ [PyFloat (F_val D)]))"
    by (rule dxdt_pyfloat [OF sf])
  show "dxdt_on python_arith (float_globals D sf) [NpFloat Xd, NpFloat Sd, NpFloat Pd, NpFloat Vd]
      = (if is_zero (Y_xs_val D) then Inl ZeroDivisionError
         else Inr (map NpFloat (double_rates D Xd Sd Pd Vd) @ [PyFloat (F_val D)]))"
    by (rule dxdt_float64 [OF sf])
qed

text \<open>
  The notebook's namespace and initial state, with \<open>V\<close> replaced: the Python list
  \<^verbatim>\<open>[0.05, 10, 0, 0]\<close> and the float list \<^verbatim>\<open>[0.05, 10.0, 0.0, 0.0]\<close> raise
  \<^verbatim>\<open>ZeroDivisionError\<close>; the float list with \<open>V = 1.1\<close> and the \<^verbatim>\<open>float64\<close> array with
  \<open>V = 1.1\<close> return the same four doubles.
\<close>

theorem dxdt_division_by_zero_witness:
  "(PyInt 0 = PyInt 0 \<or> PyInt 0 = PyFloat (Zero False)) \<and>
   dxdt_on python_arith notebook_py [lit 0.05, PyInt 10, PyInt 0, PyInt 0] = Inl ZeroDivisionError \<and>
   as_double (PyInt 10) = Inr (S_f_val notebook_dbl) \<and> \<not> is_np (PyInt 10) \<and>
   dxdt_on python_arith notebook_py [lit 0.05, lit 10, lit 0, lit 0] = Inl ZeroDivisionError \<and>
   dxdt_on python_arith notebook_py [lit 0.05, lit 10, lit 0, lit 1.1]
     = Inr [lit 0.00681818181818182, lit (- 0.0181818181818182), lit 0.0018181818181818186,
            lit 0.05] \<and>
   dxdt_on python_arith notebook_py [np_float64 0.05, np_float64 10, np_float64 0, np_float64 1.1]
     = Inr [np_float64 0.00681818181818182, np_float64 (- 0.0181818181818182),
            np_float64 0.0018181818181818186, lit 0.05]"
proof -
  note i1 = dxdt_division_by_zero [of "PyInt 0" False notebook_py "lit 0.05" "PyInt 10" "PyInt 0"]
  note i2 = dxdt_division_by_zero [of _ _ _ _ _ _ "PyInt 10" notebook_dbl
      "round_double False 0.05" "round_double False 10" "Zero False" "Zero False"]
  note i3 = dxdt_division_by_zero [of _ _ _ _ _ _ "PyInt 10" notebook_dbl
      "round_double False 0.05" "round_double False 10" "Zero False" "round_double False 1.1"]
  from i1 obtain e where e: "dxdt_on python_arith notebook_py [lit 0.05, PyInt 10, PyInt 0, PyInt 0] = Inl e"
    by blast
  have "dxdt_on python_arith notebook_py [lit 0.05, PyInt 10, PyInt 0, PyInt 0] = Inl ZeroDivisionError"
    by (simp add: monod_on_def notebook_py_def lit_def Let_def d_sub_def int_to_double_def
      int_truediv_def
      rounding_1 rounding_2 rounding_3 rounding_4 rounding_5 rounding_22
      rounding_23 rounding_24 rounding_25 rounding_26)
  with e have a: "dxdt_on python_arith notebook_py [lit 0.05, PyInt 10, PyInt 0, PyInt 0]
      = Inl ZeroDivisionError"
    by simp
  have b: "dxdt_on python_arith notebook_py [lit 0.05, lit 10, lit 0, lit 0] = Inl ZeroDivisionError"
    using i2 notebook_dbl_S_f
    by (simp add: notebook_py_float lit_def del: dxdt_on.simps)
  have r: "double_rates notebook_dbl (round_double False 0.05) (round_double False 10) (Zero False)
        (round_double False 1.1)
      = [round_double False 0.00681818181818182, round_double False (- 0.0181818181818182),
         round_double False 0.0018181818181818186]"
    by (simp add: double_rates_def notebook_dbl_def Let_def d_sub_def
      rounding_1 rounding_2 rounding_3 rounding_4 rounding_5 rounding_21
      rounding_22 rounding_23 rounding_24 rounding_25 rounding_26 rounding_27
      rounding_28 rounding_29 rounding_30 rounding_31 rounding_32 rounding_33
      rounding_34 rounding_35 rounding_36 rounding_37 rounding_38 rounding_39
      rounding_40 rounding_44 rounding_45 rounding_46)
  have z: "\<not> is_zero (d_add (K_s_val notebook_dbl) (round_double False 10))"
    "\<not> is_zero (round_double False 1.1)" "\<not> is_zero (Y_xs_val notebook_dbl)"
    by (simp_all add: notebook_dbl_def
      rounding_1 rounding_2 rounding_3 rounding_4 rounding_5 rounding_21
      rounding_22 rounding_23 rounding_24 rounding_25 rounding_26 rounding_27
      rounding_28 rounding_29 rounding_30 rounding_31 rounding_32 rounding_33
      rounding_34 rounding_35 rounding_36 rounding_37 rounding_38 rounding_39
      rounding_40 rounding_44 rounding_45 rounding_46)
  have c: "dxdt_on python_arith notebook_py [lit 0.05, lit 10, lit 0, lit 1.1]
      = Inr [lit 0.00681818181818182, lit (- 0.0181818181818182), lit 0.0018181818181818186,
             lit 0.05]"
    using i3 notebook_dbl_S_f z unfolding r
    by (simp add: notebook_py_float lit_def notebook_dbl_def del: dxdt_on.simps)
  have d: "dxdt_on python_arith notebook_py
        [np_float64 0.05, np_float64 10, np_float64 0, np_float64 1.1]
      = Inr [np_float64 0.00681818181818182, np_float64 (- 0.0181818181818182),
             np_float64 0.0018181818181818186, lit 0.05]"
    using i3 notebook_dbl_S_f z unfolding r
    by (simp add: notebook_py_float lit_def np_float64_def notebook_dbl_def del: dxdt_on.simps)
  from a b c d notebook_dbl_S_f show ?thesis
    by (simp del: dxdt_on.simps)
qed

text \<open>
  A Python list with an \<^verbatim>\<open>int\<close> too large for a double in the place of \<open>V\<close>.
\<close>

lemma dxdt_int_overflow:
  assumes "1024 \<le> k"
  shows "dxdt_on python_arith notebook_py [PyInt 0, PyInt 0, PyInt 0, PyInt (2 ^ k)] = Inl OverflowError"
proof -
  have "(1::int) < 2 ^ k"
    using assms by (intro one_less_power) simp_all
  from int_truediv_one_returns [OF this] obtain d where d: "int_truediv 1 (2 ^ k) = Inr (PyFloat d)"
    by blast
  show ?thesis
    using d int_to_double_overflow [OF assms]
    by (simp add: monod_on_def notebook_py_def lit_def Let_def
      rounding_1 rounding_2 rounding_3 rounding_4 rounding_5)
qed

text \<open>
  The claim as stated. On the \<^verbatim>\<open>float64\<close> array that \<^verbatim>\<open>solve_ivp\<close> makes of
  \<^verbatim>\<open>[0.05, 10, 0, 0]\<close>, where \<open>V = 0\<close>, \<^verbatim>\<open>dxdt\<close> raises nothing: it returns
  \<^verbatim>\<open>[-inf, nan, nan, 0.05]\<close>. And on the Python list \<^verbatim>\<open>[0, 0, 0, 2**1024]\<close>, where
  \<open>V \<noteq> 0\<close>, it returns nothing: \<^verbatim>\<open>V * rg\<close> raises \<^verbatim>\<open>OverflowError\<close>.
\<close>

theorem dxdt_division_by_zero_counterexample:
  "np_float64 0 = NpFloat (Zero False) \<and>
   dxdt_on python_arith notebook_py [np_float64 0.05, np_float64 10, np_float64 0, np_float64 0]
     = Inr [NpFloat (Infty True), NpFloat NaN, NpFloat NaN, lit 0.05] \<and>
   PyInt (2 ^ 1024) \<noteq> PyInt 0 \<and>
   dxdt_on python_arith notebook_py [PyInt 0, PyInt 0, PyInt 0, PyInt (2 ^ 1024)] = Inl OverflowError"
proof -
  have "dxdt_on python_arith notebook_py [np_float64 0.05, np_float64 10, np_float64 0, np_float64 0]
      = Inr [NpFloat (Infty True), NpFloat NaN, NpFloat NaN, lit 0.05]"
    by (simp add: monod_on_def notebook_py_def lit_def np_float64_def Let_def d_sub_def
      int_to_double_def
      rounding_1 rounding_2 rounding_3 rounding_4 rounding_5 rounding_22
      rounding_23 rounding_24 rounding_25 rounding_26 rounding_29 rounding_34
      rounding_35)
  moreover have "dxdt_on python_arith notebook_py [PyInt 0, PyInt 0, PyInt 0, PyInt (2 ^ 1024)]
      = Inl OverflowError"
    by (rule dxdt_int_overflow) simp
  moreover have "(2::int) ^ 1024 \<noteq> 0"
    by (rule power_not_zero) simp
  ultimately show ?thesis
    by (simp add: np_float64_def del: dxdt_on.simps power_numeral)
qed

section \<open>The derivative function: what it depends on\<close>

text \<open>
  C3 (as amended). \<^verbatim>\<open>dxdt\<close> is a function of its arguments \<open>t\<close> and \<open>x\<close> and of the six
  names \<^verbatim>\<open>mu_max\<close>, \<^verbatim>\<open>K_s\<close>, \<^verbatim>\<open>Y_xs\<close>, \<^verbatim>\<open>Y_px\<close>, \<^verbatim>\<open>F\<close>, \<^verbatim>\<open>S_f\<close> that it reads from the
  module namespace when it is called: two evaluations in namespaces that agree on
  these six, whatever else the namespaces hold, give the same result, be it a list
  or an exception. An evaluation changes no name of the namespace, so calls alone,
  in any number, leave the namespace as it was and return each what it returns
  alone. The scenario input \<^verbatim>\<open>F\<close> is not an argument: the value that a call returns
  as volume rate is the one bound to \<^verbatim>\<open>F\<close> when the call is made. Two scenario
  runs that rebind \<^verbatim>\<open>F\<close> and then call \<^verbatim>\<open>dxdt\<close> get their own results when one run
  follows the other; when both rebind before the first calls, the first gets the
  results of the second scenario.
\<close>

theorem dxdt_noninterference:
  fixes g :: "('o1, 'a) namespace_scheme" and g' :: "('o2, 'b) namespace_scheme"
    and h :: "('o3, 'c) namespace_scheme"
  shows
    "(mu_max g = mu_max g' \<and> K_s g = K_s g' \<and> Y_xs g = Y_xs g' \<and> Y_px g = Y_px g'
        \<and> F g = F g' \<and> S_f g = S_f g' \<longrightarrow> dxdt g t x = dxdt g' t x) \<and>
     run_actions (map (\<lambda>c. Call_dxdt (fst c) (snd c)) cs) h
       = (map (\<lambda>c. dxdt h (fst c) (snd c)) cs, h) \<and>
     (dxdt h t1 x1 = Inr d1 \<and> dxdt (h\<lparr>F := Fv\<rparr>) t1 x1 = Inr d2
        \<longrightarrow> d1 ! 3 = F h \<and> d2 ! 3 = Fv) \<and>
     run_actions [Rebind_F F1, Call_dxdt t1 x1, Rebind_F F2, Call_dxdt t2 x2] h
       = ([dxdt (h\<lparr>F := F1\<rparr>) t1 x1, dxdt (h\<lparr>F := F2\<rparr>) t2 x2], h\<lparr>F := F2\<rparr>) \<and>
     run_actions [Rebind_F F1, Rebind_F F2, Call_dxdt t1 x1, Call_dxdt t2 x2] h
       = ([dxdt (h\<lparr>F := F2\<rparr>) t1 x1, dxdt (h\<lparr>F := F2\<rparr>) t2 x2], h\<lparr>F := F2\<rparr>)"
proof (intro conjI impI)
  assume "mu_max g = mu_max g' \<and> K_s g = K_s g' \<and> Y_xs g = Y_xs g' \<and> Y_px g = Y_px g'
      \<and> F g = F g' \<and> S_f g = S_f g'"
  then show "dxdt g t x = dxdt g' t x"
    by (cases "(g, t, x)" rule: dxdt.cases) (simp_all add: monod_def)
next
  show "run_actions (map (\<lambda>c. Call_dxdt (fst c) (snd c)) cs) h
      = (map (\<lambda>c. dxdt h (fst c) (snd c)) cs, h)"
    by (rule run_actions_calls)
next
  assume a: "dxdt h t1 x1 = Inr d1 \<and> dxdt (h\<lparr>F := Fv\<rparr>) t1 x1 = Inr d2"
  from a have "dxdt h t1 x1 = Inr d1"
    by simp
  then show "d1 ! 3 = F h"
    by (rule dxdt_InrE) simp
  from a have "dxdt (h\<lparr>F := Fv\<rparr>) t1 x1 = Inr d2"
    by simp
  then show "d2 ! 3 = Fv"
    by (rule dxdt_InrE) simp
next
  show "run_actions [Rebind_F F1, Call_dxdt t1 x1, Rebind_F F2, Call_dxdt t2 x2] h
      = ([dxdt (h\<lparr>F := F1\<rparr>) t1 x1, dxdt (h\<lparr>F := F2\<rparr>) t2 x2], h\<lparr>F := F2\<rparr>)"
    by (simp del: dxdt.simps)
next
  show "run_actions [Rebind_F F1, Rebind_F F2, Call_dxdt t1 x1, Call_dxdt t2 x2] h
      = ([dxdt (h\<lparr>F := F2\<rparr>) t1 x1, dxdt (h\<lparr>F := F2\<rparr>) t2 x2], h\<lparr>F := F2\<rparr>)"
    by (simp del: dxdt.simps)
qed

text \<open>
  The notebook's namespace and one that differs from it in every name that \<^verbatim>\<open>dxdt\<close>
  does not read; two calls in the notebook's namespace; the volume rates for the
  notebook's two feed rates.
\<close>

theorem dxdt_noninterference_witness:
  "dxdt (notebook :: trajectory namespace) 3 [0.05, 10, 0, 1] =
   dxdt ((notebook :: unit namespace)
           \<lparr>x0 := [], tspan := [], tsmooth := [], Fs := [7], results := [()], out := Some ()\<rparr>)
        3 [0.05, 10, 0, 1] \<and>
   run_actions [Call_dxdt 0 [0.05, 10, 0, 1], Call_dxdt 7 [0.05, 10, 0, 2]]
       (notebook :: trajectory namespace)
     = ([Inr [29 / 4400, - 1 / 55, 1 / 550, 1 / 20], Inr [69 / 8800, - 1 / 55, 1 / 550, 1 / 20]],
        notebook) \<and>
   dxdt (notebook :: trajectory namespace) 0 [0.05, 10, 0, 1]
     = Inr [29 / 4400, - 1 / 55, 1 / 550, 1 / 20] \<and>
   dxdt ((notebook :: trajectory namespace)\<lparr>F := 0.02\<rparr>) 0 [0.05, 10, 0, 1]
     = Inr [89 / 11000, - 1 / 55, 1 / 550, 1 / 50] \<and>
   [29 / 4400, - 1 / 55, 1 / 550, 1 / 20] ! 3 = F (notebook :: trajectory namespace) \<and>
   [89 / 11000, - 1 / 55, 1 / 550, 1 / 50] ! 3 = (0.02 :: real)"
proof -
  let ?g = "notebook :: trajectory namespace"
  let ?g' = "(notebook :: unit namespace)
      \<lparr>x0 := [], tspan := [], tsmooth := [], Fs := [7], results := [()], out := Some ()\<rparr>"
  note inst = dxdt_noninterference [of ?g ?g' 3 "[0.05, 10, 0, 1]"
      "[(0, [0.05, 10, 0, 1]), (7, [0.05, 10, 0, 2])]" ?g 0 "[0.05, 10, 0, 1]"
      "[29 / 4400, - 1 / 55, 1 / 550, 1 / 20]" "0.02" "[89 / 11000, - 1 / 55, 1 / 550, 1 / 50]"]
  have agree: "mu_max ?g = mu_max ?g' \<and> K_s ?g = K_s ?g' \<and> Y_xs ?g = Y_xs ?g'
      \<and> Y_px ?g = Y_px ?g' \<and> F ?g = F ?g' \<and> S_f ?g = S_f ?g'"
    by (simp add: notebook_def)
  from inst agree have a: "dxdt ?g 3 [0.05, 10, 0, 1] = dxdt ?g' 3 [0.05, 10, 0, 1]"
    by blast
  have v: "dxdt ?g 0 [0.05, 10, 0, 1] = Inr [29 / 4400, - 1 / 55, 1 / 550, 1 / 20]"
    "dxdt ?g 7 [0.05, 10, 0, 2] = Inr [69 / 8800, - 1 / 55, 1 / 550, 1 / 20]"
    "dxdt (?g\<lparr>F := 0.02\<rparr>) 0 [0.05, 10, 0, 1] = Inr [89 / 11000, - 1 / 55, 1 / 550, 1 / 50]"
    by (simp_all add: notebook_def monod_def truediv_def)
  from inst have "run_actions (map (\<lambda>c. Call_dxdt (fst c) (snd c))
        [(0, [0.05, 10, 0, 1]), (7, [0.05, 10, 0, 2])]) ?g
      = (map (\<lambda>c. dxdt ?g (fst c) (snd c)) [(0, [0.05, 10, 0, 1]), (7, [0.05, 10, 0, 2])], ?g)"
    by blast
  then have b: "run_actions [Call_dxdt 0 [0.05, 10, 0, 1], Call_dxdt 7 [0.05, 10, 0, 2]] ?g
      = ([Inr [29 / 4400, - 1 / 55, 1 / 550, 1 / 20], Inr [69 / 8800, - 1 / 55, 1 / 550, 1 / 20]], ?g)"
    using v by (simp del: dxdt.simps run_actions.simps)
  from inst v have c: "[29 / 4400, - 1 / 55, 1 / 550, 1 / 20] ! 3 = F ?g"
    "[89 / 11000, - 1 / 55, 1 / 550, 1 / 50] ! 3 = (0.02 :: real)"
    by blast+
  from a b v c show ?thesis
    by (simp del: dxdt.simps run_actions.simps)
qed

text \<open>
  The claim as stated makes the scenario an argument of the Model and concludes
  that evaluations for different scenarios can run concurrently. In the notebook
  the scenario is the one global \<^verbatim>\<open>F\<close>. When its two scenario runs are performed
  one after the other, the same call \<^verbatim>\<open>dxdt(0, x0)\<close> returns two different lists
  within the one run of the notebook. When the two runs are interleaved so that
  both rebind \<^verbatim>\<open>F\<close> before either calls, the run for \<open>F = 0.05\<close> is given the rates
  for \<open>F = 0.02\<close>: the results are not those of the runs performed in turn.
\<close>

theorem dxdt_noninterference_counterexample:
  "fst (run_actions [Rebind_F 0.05, Call_dxdt 0 [0.05, 10, 0, 1],
                     Rebind_F 0.02, Call_dxdt 0 [0.05, 10, 0, 1]]
          (notebook :: trajectory namespace))
     = [Inr [29 / 4400, - 1 / 55, 1 / 550, 1 / 20], Inr [89 / 11000, - 1 / 55, 1 / 550, 1 / 50]] \<and>
   fst (run_actions [Rebind_F 0.05, Rebind_F 0.02,
                     Call_dxdt 0 [0.05, 10, 0, 1], Call_dxdt 0 [0.05, 10, 0, 1]]
          (notebook :: trajectory namespace))
     = [Inr [89 / 11000, - 1 / 55, 1 / 550, 1 / 50], Inr [89 / 11000, - 1 / 55, 1 / 550, 1 / 50]] \<and>
   fst (run_actions [Rebind_F 0.05, Rebind_F 0.02,
                     Call_dxdt 0 [0.05, 10, 0, 1], Call_dxdt 0 [0.05, 10, 0, 1]]
          (notebook :: trajectory namespace))
     \<noteq> fst (run_actions [Rebind_F 0.05, Call_dxdt 0 [0.05, 10, 0, 1],
                     Rebind_F 0.02, Call_dxdt 0 [0.05, 10, 0, 1]]
          (notebook :: trajectory namespace))"
  by (simp add: notebook_def monod_def truediv_def)

section \<open>The closed system and the volume\<close>











section \<open>The scenario sweep: results\<close>

text \<open>
  C2 (as amended). Take any namespace with an empty result list (the parameters, the
  initial state, the time span and the grid are whatever it holds) and any solver. If
  the sweep of the scenario \<open>F = 0.05\<close> alone and the sweep of \<open>F = 0.02\<close> alone both
  complete, each with one result, then the sweep of the two together completes and its
  results are the result of the first alone followed by the result of the second
  alone; swept in the opposite order, the same two results come in the opposite
  order. The scenarios do share the module-level name \<^verbatim>\<open>F\<close>: each rebinds it before
  its solver call, so no result depends on what another scenario left there, but the
  value the sweep leaves in \<^verbatim>\<open>F\<close> is that of whichever scenario ran last.
\<close>

theorem sweep_scenarios_independent:
  assumes empty: "results g = []"
    and alone1: "fst (sweep s (g\<lparr>Fs := [0.05]\<rparr>)) = None"
    and alone2: "fst (sweep s (g\<lparr>Fs := [0.02]\<rparr>)) = None"
  shows "fst (sweep s (g\<lparr>Fs := [0.05, 0.02]\<rparr>)) = None \<and>
     length (results (snd (sweep s (g\<lparr>Fs := [0.05]\<rparr>)))) = 1 \<and>
     length (results (snd (sweep s (g\<lparr>Fs := [0.02]\<rparr>)))) = 1 \<and>
     results (snd (sweep s (g\<lparr>Fs := [0.05, 0.02]\<rparr>))) =
       results (snd (sweep s (g\<lparr>Fs := [0.05]\<rparr>))) @ results (snd (sweep s (g\<lparr>Fs := [0.02]\<rparr>))) \<and>
     fst (sweep s (g\<lparr>Fs := [0.02, 0.05]\<rparr>)) = None \<and>
     results (snd (sweep s (g\<lparr>Fs := [0.02, 0.05]\<rparr>))) =
       results (snd (sweep s (g\<lparr>Fs := [0.02]\<rparr>))) @ results (snd (sweep s (g\<lparr>Fs := [0.05]\<rparr>))) \<and>
     F (snd (sweep s (g\<lparr>Fs := [0.05, 0.02]\<rparr>))) = 0.02 \<and>
     F (snd (sweep s (g\<lparr>Fs := [0.02, 0.05]\<rparr>))) = 0.05"
proof -
  from sweep_single [OF alone1] empty obtain r1 where r1: "solver_call s g 0.05 = Inr r1"
    "results (snd (sweep s (g\<lparr>Fs := [0.05]\<rparr>))) = [r1]"
    by auto
  from sweep_single [OF alone2] empty obtain r2 where r2: "solver_call s g 0.02 = Inr r2"
    "results (snd (sweep s (g\<lparr>Fs := [0.02]\<rparr>))) = [r2]"
    by auto
  show ?thesis
    using sweep_pair [OF r1(1) r2(1)] sweep_pair [OF r2(1) r1(1)] r1(2) r2(2) empty by simp
qed

theorem sweep_scenarios_independent_witness:
  "results (notebook :: trajectory namespace) = [] \<and>
   fst (sweep euler1 (notebook\<lparr>Fs := [0.05]\<rparr>)) = None \<and>
   fst (sweep euler1 (notebook\<lparr>Fs := [0.02]\<rparr>)) = None \<and>
   results (snd (sweep euler1 (notebook\<lparr>Fs := [0.05, 0.02]\<rparr>))) =
     results (snd (sweep euler1 (notebook\<lparr>Fs := [0.05]\<rparr>))) @
     results (snd (sweep euler1 (notebook\<lparr>Fs := [0.02]\<rparr>))) \<and>
   results (snd (sweep euler1 (notebook\<lparr>Fs := [0.02, 0.05]\<rparr>))) =
     results (snd (sweep euler1 (notebook\<lparr>Fs := [0.02]\<rparr>))) @
     results (snd (sweep euler1 (notebook\<lparr>Fs := [0.05]\<rparr>))) \<and>
   results (snd (sweep euler1 (notebook\<lparr>Fs := [0.05]\<rparr>))) \<noteq>
     results (snd (sweep euler1 (notebook\<lparr>Fs := [0.02]\<rparr>)))"
proof -
  have e: "results (notebook :: trajectory namespace) = []"
    by (simp add: notebook_def)
  have a1: "fst (sweep euler1 (notebook\<lparr>Fs := [0.05]\<rparr>)) = None"
    using euler1_notebook(1) by (simp add: sweep_def sweep_loop_Cons del: sweep_loop.simps(2))
  have a2: "fst (sweep euler1 (notebook\<lparr>Fs := [0.02]\<rparr>)) = None"
    using euler1_notebook(2) by (simp add: sweep_def sweep_loop_Cons del: sweep_loop.simps(2))
  have r1: "results (snd (sweep euler1 (notebook\<lparr>Fs := [0.05]\<rparr>))) =
      [[(0, [0.05, 10, 0, 1]), (30, [0.05 + 30 * (29 / 4400), 10 + 30 * (- 1 / 55), 0 + 30 * (1 / 550), 1 + 30 * (1 / 20)])]]"
    using euler1_notebook(1) e by (simp add: sweep_def sweep_loop_Cons del: sweep_loop.simps(2))
  have r2: "results (snd (sweep euler1 (notebook\<lparr>Fs := [0.02]\<rparr>))) =
      [[(0, [0.05, 10, 0, 1]), (30, [0.05 + 30 * (89 / 11000), 10 + 30 * (- 1 / 55), 0 + 30 * (1 / 550), 1 + 30 * (1 / 50)])]]"
    using euler1_notebook(2) e by (simp add: sweep_def sweep_loop_Cons del: sweep_loop.simps(2))
  have ne: "results (snd (sweep euler1 (notebook\<lparr>Fs := [0.05]\<rparr>))) \<noteq>
     results (snd (sweep euler1 (notebook\<lparr>Fs := [0.02]\<rparr>)))"
    unfolding r1 r2 by simp
  from sweep_scenarios_independent [OF e a1 a2] e a1 a2 ne show ?thesis
    by blast
qed

text \<open>
  The claim as stated has the scenarios share no mutable state. They share \<^verbatim>\<open>F\<close>:
  the value left after the sweep depends on the order of the scenarios, and so does
  every later evaluation of \<^verbatim>\<open>dxdt\<close>, which reads it.
\<close>

theorem sweep_scenarios_independent_counterexample:
  "F (snd (sweep euler1 (notebook\<lparr>Fs := [0.05, 0.02]\<rparr>))) = 0.02 \<and>
   F (snd (sweep euler1 (notebook\<lparr>Fs := [0.02, 0.05]\<rparr>))) = 0.05 \<and>
   dxdt (snd (sweep euler1 (notebook\<lparr>Fs := [0.05, 0.02]\<rparr>))) 0 [0.05, 10, 0, 1]
     = Inr [89 / 11000, - 1 / 55, 1 / 550, 1 / 50] \<and>
   dxdt (snd (sweep euler1 (notebook\<lparr>Fs := [0.02, 0.05]\<rparr>))) 0 [0.05, 10, 0, 1]
     = Inr [29 / 4400, - 1 / 55, 1 / 550, 1 / 20]"
proof -
  let ?a = "snd (sweep euler1 (notebook\<lparr>Fs := [0.05, 0.02]\<rparr>))"
  let ?b = "snd (sweep euler1 (notebook\<lparr>Fs := [0.02, 0.05]\<rparr>))"
  have Fa: "F ?a = 0.02"
    by (rule sweep_pair(3) [OF euler1_notebook(1) euler1_notebook(2)])
  have Fb: "F ?b = 0.05"
    by (rule sweep_pair(3) [OF euler1_notebook(2) euler1_notebook(1)])
  have frame_a: "mu_max ?a = 0.2" "K_s ?a = 1" "Y_xs ?a = 0.5" "Y_px ?a = 0.2" "S_f ?a = 10"
    using sweep_loop_frame [of euler1 "[0.05, 0.02]" "notebook\<lparr>Fs := [0.05, 0.02]\<rparr>"]
    by (simp_all add: sweep_def notebook_def del: sweep_loop.simps)
  have frame_b: "mu_max ?b = 0.2" "K_s ?b = 1" "Y_xs ?b = 0.5" "Y_px ?b = 0.2" "S_f ?b = 10"
    using sweep_loop_frame [of euler1 "[0.02, 0.05]" "notebook\<lparr>Fs := [0.02, 0.05]\<rparr>"]
    by (simp_all add: sweep_def notebook_def del: sweep_loop.simps)
  have "dxdt ?a 0 [0.05, 10, 0, 1] = dxdt ((notebook :: trajectory namespace)\<lparr>F := 0.02\<rparr>) 0 [0.05, 10, 0, 1]"
    using Fa frame_a by (intro dxdt_cong) (simp_all add: notebook_def)
  then have da: "dxdt ?a 0 [0.05, 10, 0, 1] = Inr [89 / 11000, - 1 / 55, 1 / 550, 1 / 50]"
    by (simp add: notebook_def monod_def truediv_def)
  have "dxdt ?b 0 [0.05, 10, 0, 1] = dxdt ((notebook :: trajectory namespace)\<lparr>F := 0.05\<rparr>) 0 [0.05, 10, 0, 1]"
    using Fb frame_b by (intro dxdt_cong) (simp_all add: notebook_def)
  then have db: "dxdt ?b 0 [0.05, 10, 0, 1] = Inr [29 / 4400, - 1 / 55, 1 / 550, 1 / 20]"
    by (simp add: notebook_def monod_def truediv_def)
  show ?thesis
    using Fa Fb da db by blast
qed

text \<open>
  C9. When the notebook's sweep completes, \<^verbatim>\<open>F\<close>, which was \<open>0.05\<close>, is \<open>0.02\<close>, the last
  entry of \<^verbatim>\<open>Fs\<close>; the solver has been called once with \<^verbatim>\<open>F\<close> bound to \<open>0.05\<close> and once
  with \<^verbatim>\<open>F\<close> bound to \<open>0.02\<close>, in this order; \<^verbatim>\<open>S_f\<close> and the four parameters are as
  before. An evaluation of \<^verbatim>\<open>dxdt\<close> after the sweep therefore computes with
  \<open>F = 0.02\<close>, and at the initial state its result differs from the one with the
  feed rate configured first.
\<close>

theorem sweep_leaves_last_feed_rate:
  fixes s :: "'out solver"
  assumes completes: "fst (sweep s (notebook :: 'out namespace)) = None"
  shows "F (notebook :: 'out namespace) = 0.05 \<and>
     F (snd (sweep s (notebook :: 'out namespace))) = 0.02 \<and>
     (\<exists>r1 r2. solver_call s (notebook :: 'out namespace) 0.05 = Inr r1 \<and>
        solver_call s (notebook :: 'out namespace) 0.02 = Inr r2 \<and>
        results (snd (sweep s (notebook :: 'out namespace))) = [r1, r2]) \<and>
     S_f (snd (sweep s (notebook :: 'out namespace))) = S_f (notebook :: 'out namespace) \<and>
     mu_max (snd (sweep s (notebook :: 'out namespace))) = mu_max (notebook :: 'out namespace) \<and>
     K_s (snd (sweep s (notebook :: 'out namespace))) = K_s (notebook :: 'out namespace) \<and>
     Y_xs (snd (sweep s (notebook :: 'out namespace))) = Y_xs (notebook :: 'out namespace) \<and>
     Y_px (snd (sweep s (notebook :: 'out namespace))) = Y_px (notebook :: 'out namespace) \<and>
     dxdt (snd (sweep s (notebook :: 'out namespace))) t x = dxdt ((notebook :: 'out namespace)\<lparr>F := 0.02\<rparr>) t x \<and>
     dxdt (snd (sweep s (notebook :: 'out namespace))) t [0.05, 10, 0, 1]
       \<noteq> dxdt (notebook :: 'out namespace) t [0.05, 10, 0, 1]"
proof -
  let ?nb = "notebook :: 'out namespace"
  let ?fin = "snd (sweep s ?nb)"
  have fs: "Fs ?nb = [0.05, 0.02]" and res: "results ?nb = []" and F0: "F ?nb = 0.05"
    by (simp_all add: notebook_def)
  from completes have "fst (sweep_loop s [0.05, 0.02] ?nb) = None"
    by (simp add: sweep_def fs del: sweep_loop.simps)
  from sweep_loop_None [OF this] obtain rs
    where rs: "map (solver_call s ?nb) [0.05, 0.02] = map Inr rs"
    by blast
  then obtain r1 r2 where r12: "rs = [r1, r2]"
    "solver_call s ?nb 0.05 = Inr r1" "solver_call s ?nb 0.02 = Inr r2"
    by (cases rs; cases "tl rs"; cases "tl (tl rs)") auto
  from sweep_loop_returns [OF rs]
  have F_end: "F ?fin = 0.02" and res_end: "results ?fin = [r1, r2]"
    by (simp_all add: sweep_def fs res r12 del: sweep_loop.simps)
  have frame: "S_f ?fin = S_f ?nb" "mu_max ?fin = mu_max ?nb" "K_s ?fin = K_s ?nb"
    "Y_xs ?fin = Y_xs ?nb" "Y_px ?fin = Y_px ?nb"
    using sweep_loop_frame [of s "Fs ?nb" ?nb] by (simp_all add: sweep_def)
  have eq: "dxdt ?fin t x = dxdt (?nb\<lparr>F := 0.02\<rparr>) t x"
    using frame F_end by (intro dxdt_cong) simp_all
  have "dxdt (?nb\<lparr>F := 0.02\<rparr>) t [0.05, 10, 0, 1] = Inr [89 / 11000, - 1 / 55, 1 / 550, 1 / 50]"
    by (simp add: notebook_def monod_def truediv_def)
  moreover have "dxdt ?nb t [0.05, 10, 0, 1] = Inr [29 / 4400, - 1 / 55, 1 / 550, 1 / 20]"
    by (simp add: notebook_def monod_def truediv_def)
  moreover have "dxdt ?fin t [0.05, 10, 0, 1] = dxdt (?nb\<lparr>F := 0.02\<rparr>) t [0.05, 10, 0, 1]"
    using frame F_end by (intro dxdt_cong) simp_all
  ultimately have ne: "dxdt ?fin t [0.05, 10, 0, 1] \<noteq> dxdt ?nb t [0.05, 10, 0, 1]"
    by simp
  show ?thesis
    using F0 F_end r12(2,3) res_end frame eq ne by blast
qed

theorem sweep_leaves_last_feed_rate_witness:
  "fst (sweep euler1 notebook) = None \<and>
   F (snd (sweep euler1 notebook)) = 0.02 \<and>
   dxdt (snd (sweep euler1 notebook)) 0 [0.05, 10, 0, 1]
     = dxdt ((notebook :: trajectory namespace)\<lparr>F := 0.02\<rparr>) 0 [0.05, 10, 0, 1] \<and>
   dxdt (snd (sweep euler1 notebook)) 0 [0.05, 10, 0, 1]
     \<noteq> dxdt (notebook :: trajectory namespace) 0 [0.05, 10, 0, 1]"
proof -
  have "map (solver_call euler1 notebook) (Fs (notebook :: trajectory namespace)) =
      map Inr [[(0, [0.05, 10, 0, 1]), (30, [0.05 + 30 * (29 / 4400), 10 + 30 * (- 1 / 55), 0 + 30 * (1 / 550), 1 + 30 * (1 / 20)])],
               [(0, [0.05, 10, 0, 1]), (30, [0.05 + 30 * (89 / 11000), 10 + 30 * (- 1 / 55), 0 + 30 * (1 / 550), 1 + 30 * (1 / 50)])]]"
    using euler1_notebook by (simp add: notebook_def)
  from sweep_loop_returns [OF this] have ok: "fst (sweep euler1 notebook) = None"
    by (simp add: sweep_def)
  from sweep_leaves_last_feed_rate [OF ok, of 0 "[0.05, 10, 0, 1]"] ok show ?thesis
    by blast
qed

text \<open>
  C5 (as amended). If every solver call of the sweep returns, the sweep completes and
  has appended exactly one result per scenario, in the order of the scenario list,
  each being the object the solver returned for that scenario; and the sweep
  completes only in this case. The loop adds no status of its own and catches
  nothing: if the sweep ends with an exception, some scenario's solver call raised it,
  the results appended are those of the scenarios before it, and the scenarios after
  it are not run.
\<close>

theorem sweep_results_or_abort:
  "(map (solver_call s g) (Fs g) = map Inr rs \<longrightarrow>
      fst (sweep s g) = None \<and> results (snd (sweep s g)) = results g @ rs \<and>
      length rs = length (Fs g)) \<and>
   (fst (sweep s g) = None \<longrightarrow> (\<exists>rs'. map (solver_call s g) (Fs g) = map Inr rs')) \<and>
   (fst (sweep s g) = Some e \<longrightarrow>
      (\<exists>k < length (Fs g). solver_call s g (Fs g ! k) = Inl e \<and>
         (\<exists>rs'. map (solver_call s g) (take k (Fs g)) = map Inr rs' \<and>
                results (snd (sweep s g)) = results g @ rs' \<and> length rs' = k)))"
proof (intro conjI impI)
  assume h: "map (solver_call s g) (Fs g) = map Inr rs"
  from sweep_loop_returns [OF h]
  show "fst (sweep s g) = None" and "results (snd (sweep s g)) = results g @ rs"
    by (simp_all add: sweep_def)
  from h have "length (map (solver_call s g) (Fs g)) = length (map Inr rs :: (py_error + 'a) list)"
    by simp
  then show "length rs = length (Fs g)"
    by simp
next
  assume "fst (sweep s g) = None"
  then show "\<exists>rs'. map (solver_call s g) (Fs g) = map Inr rs'"
    unfolding sweep_def by (rule sweep_loop_None)
next
  assume "fst (sweep s g) = Some e"
  then have "fst (sweep_loop s (Fs g) g) = Some e"
    by (simp add: sweep_def)
  from sweep_loop_raises [OF this] obtain k rs' where k: "k < length (Fs g)"
    "solver_call s g (Fs g ! k) = Inl e"
    "map (solver_call s g) (take k (Fs g)) = map Inr rs'"
    "results (snd (sweep s g)) = results g @ rs'"
    unfolding sweep_def by blast
  from k(3) have "length (map (solver_call s g) (take k (Fs g))) = length (map Inr rs' :: (py_error + 'a) list)"
    by simp
  with k(1) have "length rs' = k"
    by simp
  with k show "\<exists>k < length (Fs g). solver_call s g (Fs g ! k) = Inl e \<and>
         (\<exists>rs'. map (solver_call s g) (take k (Fs g)) = map Inr rs' \<and>
                results (snd (sweep s g)) = results g @ rs' \<and> length rs' = k)"
    by blast
qed

theorem sweep_results_or_abort_witness:
  "fst (sweep euler1 notebook) = None \<and>
   results (snd (sweep euler1 notebook)) =
     [[(0, [0.05, 10, 0, 1]), (30, [0.05 + 30 * (29 / 4400), 10 + 30 * (- 1 / 55), 0 + 30 * (1 / 550), 1 + 30 * (1 / 20)])],
      [(0, [0.05, 10, 0, 1]), (30, [0.05 + 30 * (89 / 11000), 10 + 30 * (- 1 / 55), 0 + 30 * (1 / 550), 1 + 30 * (1 / 50)])]] \<and>
   fst (sweep (raising_solver ValueError) (notebook :: trajectory namespace)) = Some ValueError \<and>
   (\<exists>k < length (Fs (notebook :: trajectory namespace)).
      solver_call (raising_solver ValueError) (notebook :: trajectory namespace)
        (Fs (notebook :: trajectory namespace) ! k) = Inl ValueError)"
proof -
  let ?rs = "[[(0, [0.05, 10, 0, 1]), (30, [0.05 + 30 * (29 / 4400), 10 + 30 * (- 1 / 55), 0 + 30 * (1 / 550), 1 + 30 * (1 / 20)])],
      [(0, [0.05, 10, 0, 1]), (30, [0.05 + 30 * (89 / 11000), 10 + 30 * (- 1 / 55), 0 + 30 * (1 / 550), 1 + 30 * (1 / 50 :: real)])]]"
  let ?nb = "notebook :: trajectory namespace"
  have calls: "map (solver_call euler1 ?nb) (Fs ?nb) = map Inr ?rs"
    using euler1_notebook by (simp add: notebook_def)
  have res: "results ?nb = []"
    by (simp add: notebook_def)
  from sweep_results_or_abort [of euler1 ?nb ?rs] calls res
  have a: "fst (sweep euler1 ?nb) = None" "results (snd (sweep euler1 ?nb)) = ?rs"
    by simp_all
  have raised: "fst (sweep (raising_solver ValueError) ?nb) = Some ValueError"
    by (simp add: sweep_def notebook_def raising_solver_def)
  from sweep_results_or_abort [of "raising_solver ValueError" ?nb _ ValueError] raised
  have "\<exists>k < length (Fs ?nb).
      solver_call (raising_solver ValueError) ?nb (Fs ?nb ! k) = Inl ValueError"
    by blast
  with a raised show ?thesis
    by blast
qed

text \<open>
  The claim as stated promises one result per scenario even when an integration
  fails. With a solver that raises, the notebook's two scenarios yield no result.
\<close>

theorem sweep_results_or_abort_counterexample:
  "length (Fs (notebook :: trajectory namespace)) = 2 \<and>
   fst (sweep (raising_solver (OtherError ''solver'')) (notebook :: trajectory namespace))
     = Some (OtherError ''solver'') \<and>
   results (snd (sweep (raising_solver (OtherError ''solver'')) (notebook :: trajectory namespace))) = []"
  by (simp add: sweep_def notebook_def raising_solver_def)

text \<open>
  C4 (as amended). The sweep validates nothing. Parameters, initial state, time span
  and grid reach the solver as they are; the only exceptions the sweep can end with
  are those a solver call raises, and when every solver call returns the sweep
  completes, whatever the configuration.
\<close>

theorem sweep_no_validation:
  "(fst (sweep s g) = Some e \<longrightarrow>
      (\<exists>Fv \<in> set (Fs g). s (dxdt (g\<lparr>F := Fv\<rparr>)) (tspan g) (x0 g) (tsmooth g) = Inl e)) \<and>
   ((\<forall>Fv \<in> set (Fs g). \<exists>r. s (dxdt (g\<lparr>F := Fv\<rparr>)) (tspan g) (x0 g) (tsmooth g) = Inr r) \<longrightarrow>
      fst (sweep s g) = None)"
proof (intro conjI impI)
  assume "fst (sweep s g) = Some e"
  then have "fst (sweep_loop s (Fs g) g) = Some e"
    by (simp add: sweep_def)
  from sweep_loop_raises [OF this] obtain k where "k < length (Fs g)"
    "solver_call s g (Fs g ! k) = Inl e"
    by blast
  then have "Fs g ! k \<in> set (Fs g)" "s (dxdt (g\<lparr>F := Fs g ! k\<rparr>)) (tspan g) (x0 g) (tsmooth g) = Inl e"
    by (simp_all add: solver_call_def)
  then show "\<exists>Fv \<in> set (Fs g). s (dxdt (g\<lparr>F := Fv\<rparr>)) (tspan g) (x0 g) (tsmooth g) = Inl e"
    by blast
next
  assume all: "\<forall>Fv \<in> set (Fs g). \<exists>r. s (dxdt (g\<lparr>F := Fv\<rparr>)) (tspan g) (x0 g) (tsmooth g) = Inr r"
  show "fst (sweep s g) = None"
  proof (cases "fst (sweep s g)")
    case None
    then show ?thesis .
  next
    case (Some e)
    then have "fst (sweep_loop s (Fs g) g) = Some e"
      by (simp add: sweep_def)
    from sweep_loop_raises [OF this] obtain k where "k < length (Fs g)"
      "solver_call s g (Fs g ! k) = Inl e"
      by blast
    then have "Fs g ! k \<in> set (Fs g)" "s (dxdt (g\<lparr>F := Fs g ! k\<rparr>)) (tspan g) (x0 g) (tsmooth g) = Inl e"
      by (simp_all add: solver_call_def)
    with all show ?thesis
      by fastforce
  qed
qed

theorem sweep_no_validation_witness:
  "fst (sweep euler1 (notebook\<lparr>x0 := [0.05, 10, 0, 0]\<rparr>)) = Some ZeroDivisionError \<and>
   (\<exists>Fv \<in> set (Fs (notebook :: trajectory namespace)).
      euler1 (dxdt ((notebook :: trajectory namespace)\<lparr>x0 := [0.05, 10, 0, 0], F := Fv\<rparr>))
        [0, 30] [0.05, 10, 0, 0] (linspace 0 30) = Inl ZeroDivisionError) \<and>
   fst (sweep euler1 notebook) = None"
proof -
  let ?nb = "notebook :: trajectory namespace"
  let ?bad = "?nb\<lparr>x0 := [0.05, 10, 0, 0]\<rparr>"
  have raised: "fst (sweep euler1 ?bad) = Some ZeroDivisionError"
    by (simp add: sweep_def euler1_def notebook_def monod_def truediv_def)
  from sweep_no_validation [of euler1 ?bad ZeroDivisionError] raised
  have "\<exists>Fv \<in> set (Fs ?bad). euler1 (dxdt (?bad\<lparr>F := Fv\<rparr>)) (tspan ?bad) (x0 ?bad) (tsmooth ?bad)
      = Inl ZeroDivisionError"
    by blast
  then have b: "\<exists>Fv \<in> set (Fs ?nb). euler1 (dxdt (?nb\<lparr>x0 := [0.05, 10, 0, 0], F := Fv\<rparr>))
        [0, 30] [0.05, 10, 0, 0] (linspace 0 30) = Inl ZeroDivisionError"
    by (simp add: notebook_def)
  have "\<forall>Fv \<in> set (Fs ?nb). \<exists>r. euler1 (dxdt (?nb\<lparr>F := Fv\<rparr>)) (tspan ?nb) (x0 ?nb) (tsmooth ?nb) = Inr r"
    using euler1_notebook [unfolded solver_call_def] by (simp add: notebook_def)
  with sweep_no_validation [of euler1 ?nb] have "fst (sweep euler1 ?nb) = None"
    by blast
  with raised b show ?thesis
    by blast
qed

text \<open>
  The claim as stated has an empty scenario list and a negative feed rate rejected
  before integration. Neither raises anything: the empty list is swept without a
  solver call, and with \<open>F = - 1\<close> the solver is called and its result appended.
\<close>

theorem sweep_no_validation_counterexample:
  "fst (sweep euler1 (notebook\<lparr>Fs := []\<rparr>)) = None \<and>
   fst (sweep euler1 (notebook\<lparr>Fs := [- 1]\<rparr>)) = None \<and>
   length (results (snd (sweep euler1 (notebook\<lparr>Fs := [- 1]\<rparr>)))) = 1"
  by (simp add: sweep_def solver_call_def euler1_def notebook_def monod_def truediv_def)

end
